theory Spec2Isabelle
  imports Complex_Main
begin

section \<open>The Qdrant vector-store adapter (vectorstores.js)\<close>

text \<open>
  A shallow embedding of the class \<open>QdrantVectorStore\<close>. The adapter computes nothing on
  its own: every method is a short sequence of calls to the database client, to the
  embeddings provider and to the diversity-selection utility. The model therefore threads
  a \<open>world\<close> through every method: the list of calls issued so far, the collections the
  remote service lists, and the counter of the identifier generator. What the outside
  answers is a parameter, the record \<open>env\<close>. A rejected promise and a thrown exception are
  the \<open>Inl\<close> branch of the result; the world comes back in either branch, so that the
  calls made before a failure stay visible.
\<close>

subsection \<open>Values\<close>

text \<open>
  JavaScript values as far as the adapter handles them. An object is the list of its
  properties, each key once; the order of the list plays no role in what is proved.
  Numbers are only passed through (and counted with \<open>.length\<close>), never computed with.
\<close>

type_synonym number = real

datatype jsval =
    Undefined
  | Null
  | Str string
  | Number number
  | Obj "(string \<times> jsval) list"

type_synonym object = "(string \<times> jsval) list"

text \<open>Writing a property: a key already there keeps its place and takes the new value.\<close>

fun obj_put :: "string \<Rightarrow> jsval \<Rightarrow> object \<Rightarrow> object" where
  "obj_put k v [] = [(k, v)]"
| "obj_put k v (p # ps) = (if fst p = k then (k, v) # ps else p # obj_put k v ps)"

text \<open>Reading a property: \<open>undefined\<close> when the key is absent.\<close>

definition obj_get :: "string \<Rightarrow> object \<Rightarrow> jsval" where
  "obj_get k ps = (case map_of ps k of None \<Rightarrow> Undefined | Some v \<Rightarrow> v)"

definition obj_keys :: "object \<Rightarrow> string list" where
  "obj_keys ps = map fst ps"

type_synonym vector = "number list"

text \<open>A filter is an object of the database's filter language; as an object it is truthy.\<close>

type_synonym qfilter = object

record document =
  doc_id :: "string option"
  pageContent :: string
  metadata :: jsval

record point =
  point_id :: string
  point_vector :: vector
  payload :: object

record search_request =
  req_vector :: vector
  limit :: "nat option"
  req_filter :: "qfilter option"
  with_payload :: "string list"
  with_vector :: bool

text \<open>A scored point of a search response. The payload may be absent (\<open>null\<close>).\<close>

record hit =
  hit_id :: string
  hit_vector :: vector
  hit_payload :: "object option"
  score :: number

subsection \<open>The outside world\<close>

datatype call =
    GetCollections
  | CreateCollection string jsval
  | Upsert string bool "point list"
  | DeletePoints string bool string "string list"
  | DeleteFilter string bool string qfilter
  | Search string search_request
  | EmbedQuery string
  | EmbedDocuments "string list"

datatype error =
    Error string
  | TypeError
  | Rejected call
  | UpsertError call
  | LibraryError string

record world =
  calls :: "call list"
  collections :: "string list"
  uuid_count :: nat

text \<open>
  The answers of the outside: whether a call is rejected (given the calls made before it),
  what a search returns, what the embeddings provider returns, which indices the
  diversity selection picks and which identifier the generator hands out at each draw.
  \<open>number_toString\<close> is the decimal text JavaScript gives a number.
\<close>

record env =
  rejects :: "call list \<Rightarrow> call \<Rightarrow> bool"
  search_reply :: "string \<Rightarrow> search_request \<Rightarrow> hit list"
  embed_query :: "string \<Rightarrow> vector"
  embed_documents :: "string list \<Rightarrow> vector list"
  mmr :: "vector \<Rightarrow> vector list \<Rightarrow> number option \<Rightarrow> nat \<Rightarrow> nat list"
  uuid_gen :: "nat \<Rightarrow> string"
  number_toString :: "number \<Rightarrow> string"

type_synonym 'a io = "world \<Rightarrow> (error + 'a) \<times> world"

text \<open>
  One awaited call: it is appended to the list of calls; when the outside rejects it the
  rejection propagates, otherwise the effect on the world takes place and the reply comes
  back.
\<close>

definition await :: "env \<Rightarrow> call \<Rightarrow> (world \<Rightarrow> world) \<Rightarrow> (world \<Rightarrow> 'a) \<Rightarrow> 'a io" where
  "await e c effect reply w =
     (let w1 = w\<lparr>calls := calls w @ [c]\<rparr>
      in if rejects e (calls w) c then (Inl (Rejected c), w1)
         else (Inr (reply w1), effect w1))"

definition client_getCollections :: "env \<Rightarrow> string list io" where
  "client_getCollections e = await e GetCollections (\<lambda>w. w) collections"

text \<open>The remote service lists a collection once its creation has been accepted.\<close>

definition client_createCollection :: "env \<Rightarrow> string \<Rightarrow> jsval \<Rightarrow> unit io" where
  "client_createCollection e name cfg =
     await e (CreateCollection name cfg)
       (\<lambda>w. w\<lparr>collections := collections w @ [name]\<rparr>) (\<lambda>_. ())"

definition client_upsert :: "env \<Rightarrow> string \<Rightarrow> bool \<Rightarrow> point list \<Rightarrow> unit io" where
  "client_upsert e name wait ps = await e (Upsert name wait ps) (\<lambda>w. w) (\<lambda>_. ())"

definition client_delete_points :: "env \<Rightarrow> string \<Rightarrow> bool \<Rightarrow> string \<Rightarrow> string list \<Rightarrow> unit io" where
  "client_delete_points e name wait ord ps =
     await e (DeletePoints name wait ord ps) (\<lambda>w. w) (\<lambda>_. ())"

definition client_delete_filter :: "env \<Rightarrow> string \<Rightarrow> bool \<Rightarrow> string \<Rightarrow> qfilter \<Rightarrow> unit io" where
  "client_delete_filter e name wait ord f =
     await e (DeleteFilter name wait ord f) (\<lambda>w. w) (\<lambda>_. ())"

definition client_search :: "env \<Rightarrow> string \<Rightarrow> search_request \<Rightarrow> hit list io" where
  "client_search e name r = await e (Search name r) (\<lambda>w. w) (\<lambda>_. search_reply e name r)"

definition embedQuery :: "env \<Rightarrow> string \<Rightarrow> vector io" where
  "embedQuery e t = await e (EmbedQuery t) (\<lambda>w. w) (\<lambda>_. embed_query e t)"

definition embedDocuments :: "env \<Rightarrow> string list \<Rightarrow> vector list io" where
  "embedDocuments e ts = await e (EmbedDocuments ts) (\<lambda>w. w) (\<lambda>_. embed_documents e ts)"

text \<open>\<open>uuid()\<close> is local: it draws the next identifier and makes no call.\<close>

definition uuid :: "env \<Rightarrow> world \<Rightarrow> string \<times> world" where
  "uuid e w = (uuid_gen e (uuid_count w), w\<lparr>uuid_count := Suc (uuid_count w)\<rparr>)"

subsection \<open>Construction\<close>

definition CONTENT_KEY :: string where
  "CONTENT_KEY = ''content''"

definition METADATA_KEY :: string where
  "METADATA_KEY = ''metadata''"

text \<open>
  The client handle of the adapter: the one passed in, or one built from the URL and the
  API key by the constructor of the client library.
\<close>

datatype qclient =
    ClientHandle nat
  | NewQdrantClient "string option" "string option"

record lib_args =
  arg_client :: "qclient option"
  arg_url :: "string option"
  arg_apiKey :: "string option"
  arg_collectionName :: "string option"
  arg_collectionConfig :: "jsval option"
  arg_contentPayloadKey :: "string option"
  arg_metadataPayloadKey :: "string option"

record store =
  client :: qclient
  collectionName :: string
  collectionConfig :: "jsval option"
  contentPayloadKey :: string
  metadataPayloadKey :: string

text \<open>\<open>a ?? b\<close>: the right operand only when the left one is \<open>undefined\<close> or \<open>null\<close>.\<close>

definition nullish :: "'a option \<Rightarrow> 'a \<Rightarrow> 'a" where
  "nullish a b = (case a of None \<Rightarrow> b | Some x \<Rightarrow> x)"

text \<open>Truthiness of an optional string: absent and the empty string are falsy.\<close>

definition truthy_str :: "string option \<Rightarrow> bool" where
  "truthy_str s = (case s of None \<Rightarrow> False | Some x \<Rightarrow> x \<noteq> [])"

text \<open>Lines 68 to 71: the fields of the adapter, once the client is there.\<close>

definition store_fields :: "lib_args \<Rightarrow> qclient \<Rightarrow> store" where
  "store_fields args c =
     \<lparr> client = c,
       collectionName = nullish (arg_collectionName args) ''documents'',
       collectionConfig = arg_collectionConfig args,
       contentPayloadKey = nullish (arg_contentPayloadKey args) CONTENT_KEY,
       metadataPayloadKey = nullish (arg_metadataPayloadKey args) METADATA_KEY \<rparr>"

text \<open>
  The constructor (lines 57 to 71). \<open>getenv\<close> is \<open>getEnvironmentVariable\<close> of the
  framework. \<open>newClient\<close> is \<open>new QdrantClient({url, apiKey})\<close> of the client library,
  only reached when no client was passed in (\<open>args.client || ...\<close>): what it does is the
  library's, so it is a parameter; it may throw (the library refuses a URL that does not
  start with \<open>http://\<close> or \<open>https://\<close>) and it may act on the world.
\<close>

definition new_QdrantVectorStore ::
  "(string \<Rightarrow> string option) \<Rightarrow> (string option \<Rightarrow> string option \<Rightarrow> qclient io) \<Rightarrow>
   lib_args \<Rightarrow> store io"
where
  "new_QdrantVectorStore getenv newClient args w =
     (let url = (case arg_url args of None \<Rightarrow> getenv ''QDRANT_URL'' | Some u \<Rightarrow> Some u);
          apiKey = (case arg_apiKey args of None \<Rightarrow> getenv ''QDRANT_API_KEY'' | Some k \<Rightarrow> Some k)
      in if arg_client args = None \<and> \<not> truthy_str url
         then (Inl (Error ''Qdrant client or url address must be set.''), w)
         else
           (case arg_client args of
              Some c \<Rightarrow> (Inr (store_fields args c), w)
            | None \<Rightarrow>
                (case newClient url apiKey w of
                   (Inl err, w1) \<Rightarrow> (Inl err, w1)
                 | (Inr c, w1) \<Rightarrow> (Inr (store_fields args c), w1))))"

subsection \<open>ensureCollection\<close>

definition default_config :: "vector \<Rightarrow> jsval" where
  "default_config probe =
     Obj [(''vectors'', Obj [(''size'', Number (real (length probe))),
                             (''distance'', Str ''Cosine'')])]"

definition ensureCollection :: "env \<Rightarrow> store \<Rightarrow> unit io" where
  "ensureCollection e s w =
     (case client_getCollections e w of
        (Inl err, w1) \<Rightarrow> (Inl err, w1)
      | (Inr collectionNames, w1) \<Rightarrow>
          if collectionName s \<notin> set collectionNames then
            (case collectionConfig s of
               Some cfg \<Rightarrow> client_createCollection e (collectionName s) cfg w1
             | None \<Rightarrow>
                 (case embedQuery e ''test'' w1 of
                    (Inl err, w2) \<Rightarrow> (Inl err, w2)
                  | (Inr probe, w2) \<Rightarrow>
                      client_createCollection e (collectionName s) (default_config probe) w2))
          else (Inr (), w1))"

subsection \<open>delete\<close>

record delete_params =
  ids :: "string list option"
  shardKey :: "string option"
  filter_p :: "qfilter option"

definition batchSize :: nat where
  "batchSize = 1000"

text \<open>
  The loop of lines 129 to 136: \<open>ids.slice(i, i + batchSize)\<close> is
  \<open>take batchSize (drop i ids)\<close>; a rejected call leaves the loop.
\<close>

function delete_loop :: "env \<Rightarrow> store \<Rightarrow> string list \<Rightarrow> nat \<Rightarrow> unit io" where
  "delete_loop e s xs i w =
     (if i < length xs then
        (case client_delete_points e (collectionName s) True ''weak''
                (take batchSize (drop i xs)) w of
           (Inl err, w1) \<Rightarrow> (Inl err, w1)
         | (Inr u, w1) \<Rightarrow> delete_loop e s xs (i + batchSize) w1)
      else (Inr (), w))"
  by pat_completeness auto
termination
  by (relation "measure (\<lambda>(e, s, xs, i, w). length xs - i)") (auto simp: batchSize_def)

definition delete :: "env \<Rightarrow> store \<Rightarrow> delete_params \<Rightarrow> unit io" where
  "delete e s params w =
     (case ids params of
        Some xs \<Rightarrow> delete_loop e s xs 0 w
      | None \<Rightarrow>
          (case filter_p params of
             Some f \<Rightarrow> client_delete_filter e (collectionName s) True ''weak'' f w
           | None \<Rightarrow> (Inl (Error ''Either ids or filter must be provided.''), w)))"

subsection \<open>addVectors\<close>

text \<open>
  \<open>documentOptions?.customPayload[idx]\<close>: \<open>undefined\<close> without options, and
  \<open>undefined\<close> past the end of the array.
\<close>

definition custom_payload_at :: "jsval list option \<Rightarrow> nat \<Rightarrow> jsval" where
  "custom_payload_at documentOptions idx =
     (case documentOptions of
        None \<Rightarrow> Undefined
      | Some cps \<Rightarrow> if idx < length cps then cps ! idx else Undefined)"

text \<open>The object literal of lines 102 to 106, its three properties written in order.\<close>

definition make_payload :: "store \<Rightarrow> document \<Rightarrow> jsval \<Rightarrow> object" where
  "make_payload s d custom =
     obj_put ''customPayload'' custom
       (obj_put (metadataPayloadKey s) (metadata d)
          (obj_put (contentPayloadKey s) (Str (pageContent d)) []))"

text \<open>\<open>documents[idx].id ?? uuid()\<close>: an identifier is drawn only when the document has none.\<close>

definition id_or_uuid :: "env \<Rightarrow> document \<Rightarrow> world \<Rightarrow> string \<times> world" where
  "id_or_uuid e d w = (case doc_id d of Some i \<Rightarrow> (i, w) | None \<Rightarrow> uuid e w)"

text \<open>
  The \<open>map\<close> of lines 99 to 107, from index \<open>idx\<close> on. Reading a field of
  \<open>documents[idx]\<close> past the end of \<open>documents\<close> is a TypeError, which ends the map.
\<close>

fun build_points ::
  "env \<Rightarrow> store \<Rightarrow> vector list \<Rightarrow> document list \<Rightarrow> jsval list option \<Rightarrow> nat \<Rightarrow> point list io"
where
  "build_points e s [] documents documentOptions idx w = (Inr [], w)"
| "build_points e s (embedding # rest) documents documentOptions idx w =
     (if idx < length documents then
        (case id_or_uuid e (documents ! idx) w of
           (pid, w1) \<Rightarrow>
             (case build_points e s rest documents documentOptions (Suc idx) w1 of
                (Inl err, w2) \<Rightarrow> (Inl err, w2)
              | (Inr ps, w2) \<Rightarrow>
                  (Inr (\<lparr> point_id = pid, point_vector = embedding,
                          payload = make_payload s (documents ! idx)
                                      (custom_payload_at documentOptions idx) \<rparr> # ps),
                   w2)))
      else (Inl TypeError, w))"

definition addVectors ::
  "env \<Rightarrow> store \<Rightarrow> vector list \<Rightarrow> document list \<Rightarrow> jsval list option \<Rightarrow> unit io"
where
  "addVectors e s vectors documents documentOptions w =
     (if length vectors = 0 then (Inr (), w)
      else
        (case ensureCollection e s w of
           (Inl err, w1) \<Rightarrow> (Inl err, w1)
         | (Inr u, w1) \<Rightarrow>
             (case build_points e s vectors documents documentOptions 0 w1 of
                (Inl err, w2) \<Rightarrow> (Inl err, w2)
              | (Inr points, w2) \<Rightarrow>
                  (case client_upsert e (collectionName s) True points w2 of
                     (Inl err, w3) \<Rightarrow>
                       (Inl (UpsertError (Upsert (collectionName s) True points)), w3)
                   | (Inr u', w3) \<Rightarrow> (Inr (), w3)))))"

subsection \<open>The point on the wire\<close>

text \<open>
  The client sends the points as JSON, and \<open>JSON.stringify\<close> leaves out every property
  whose value is \<open>undefined\<close>, at every depth. The stored point of the specification is
  this representation of the point.
\<close>

fun json :: "jsval \<Rightarrow> jsval" and json_props :: "object \<Rightarrow> object" where
  "json (Obj ps) = Obj (json_props ps)"
| "json Undefined = Undefined"
| "json Null = Null"
| "json (Str t) = Str t"
| "json (Number x) = Number x"
| "json_props [] = []"
| "json_props (p # ps) =
     (if snd p = Undefined then json_props ps else (fst p, json (snd p)) # json_props ps)"

definition stored_payload :: "point \<Rightarrow> object" where
  "stored_payload p = json_props (payload p)"

text \<open>Lines 81 to 84: the texts are embedded in one call, then the vectors are added.\<close>

definition addDocuments :: "env \<Rightarrow> store \<Rightarrow> document list \<Rightarrow> jsval list option \<Rightarrow> unit io" where
  "addDocuments e s documents documentOptions w =
     (case embedDocuments e (map pageContent documents) w of
        (Inl err, w1) \<Rightarrow> (Inl err, w1)
      | (Inr vectors, w1) \<Rightarrow> addVectors e s vectors documents documentOptions w1)"

subsection \<open>Searching\<close>

text \<open>
  \<open>v.toString()\<close>: a TypeError on \<open>null\<close> and \<open>undefined\<close>, the string itself, the text
  of a number, and \<open>[object Object]\<close> for an object.
\<close>

definition js_toString :: "env \<Rightarrow> jsval \<Rightarrow> error + string" where
  "js_toString e v =
     (case v of
        Undefined \<Rightarrow> Inl TypeError
      | Null \<Rightarrow> Inl TypeError
      | Str t \<Rightarrow> Inr t
      | Number x \<Rightarrow> Inr (number_toString e x)
      | Obj ps \<Rightarrow> Inr ''[object Object]'')"

text \<open>
  The constructor of \<open>Document\<close>, of the framework:
  \<open>pageContent = fields.pageContent !== undefined ? fields.pageContent.toString() : ""\<close>,
  \<open>metadata = fields.metadata ?? {}\<close>, \<open>id = fields.id\<close>.
\<close>

definition new_Document :: "env \<Rightarrow> string option \<Rightarrow> jsval \<Rightarrow> jsval \<Rightarrow> error + document" where
  "new_Document e i meta content =
     (case (if content \<noteq> Undefined then js_toString e content else Inr []) of
        Inl err \<Rightarrow> Inl err
      | Inr t \<Rightarrow>
          Inr \<lparr> doc_id = i, pageContent = t,
                metadata = (if meta = Undefined \<or> meta = Null then Obj [] else meta) \<rparr>)"

text \<open>
  \<open>new Document({id: res.id, metadata: res.payload[...], pageContent: res.payload[...]})\<close>:
  indexing an absent payload is a TypeError.
\<close>

definition hit_document :: "env \<Rightarrow> store \<Rightarrow> hit \<Rightarrow> error + document" where
  "hit_document e s res =
     (case hit_payload res of
        None \<Rightarrow> Inl TypeError
      | Some pl \<Rightarrow>
          new_Document e (Some (hit_id res))
            (obj_get (metadataPayloadKey s) pl) (obj_get (contentPayloadKey s) pl))"

text \<open>\<open>Array.map\<close> with a callback that may throw: the first exception ends it.\<close>

fun map_throwing :: "('a \<Rightarrow> error + 'b) \<Rightarrow> 'a list \<Rightarrow> error + 'b list" where
  "map_throwing f [] = Inr []"
| "map_throwing f (x # xs) =
     (case f x of
        Inl err \<Rightarrow> Inl err
      | Inr y \<Rightarrow> (case map_throwing f xs of Inl err \<Rightarrow> Inl err | Inr ys \<Rightarrow> Inr (y # ys)))"

text \<open>
  The query vector is an array or absent; \<open>!query\<close> holds of the absent one only, an array
  (the empty one too) being truthy.
\<close>

definition similaritySearchVectorWithScore ::
  "env \<Rightarrow> store \<Rightarrow> vector option \<Rightarrow> nat option \<Rightarrow> qfilter option \<Rightarrow> (document \<times> number) list io"
where
  "similaritySearchVectorWithScore e s query k flt w =
     (case query of
        None \<Rightarrow> (Inr [], w)
      | Some q \<Rightarrow>
          (case ensureCollection e s w of
             (Inl err, w1) \<Rightarrow> (Inl err, w1)
           | (Inr u, w1) \<Rightarrow>
               (case client_search e (collectionName s)
                       \<lparr> req_vector = q, limit = k, req_filter = flt,
                         with_payload = [metadataPayloadKey s, contentPayloadKey s],
                         with_vector = False \<rparr> w1 of
                  (Inl err, w2) \<Rightarrow> (Inl err, w2)
                | (Inr results, w2) \<Rightarrow>
                    (map_throwing
                       (\<lambda>res. case hit_document e s res of
                                 Inl err \<Rightarrow> Inl err
                               | Inr d \<Rightarrow> Inr (d, score res)) results,
                     w2))))"

record mmr_options =
  opt_k :: nat
  opt_fetchK :: "nat option"
  opt_lambda :: "number option"
  opt_filter :: "qfilter option"

text \<open>\<open>results[idx]\<close>, whose fields are read next: past the end that is a TypeError.\<close>

definition result_at :: "hit list \<Rightarrow> nat \<Rightarrow> error + hit" where
  "result_at results idx = (if idx < length results then Inr (results ! idx) else Inl TypeError)"

text \<open>
  Lines 195 to 218. The query is a string, falsy when absent or empty. \<open>options?.x\<close>
  tolerates absent options, \<open>options.k\<close> on line 209 does not.
\<close>

definition maxMarginalRelevanceSearch ::
  "env \<Rightarrow> store \<Rightarrow> string option \<Rightarrow> mmr_options option \<Rightarrow> document list io"
where
  "maxMarginalRelevanceSearch e s query options w =
     (if \<not> truthy_str query then (Inr [], w)
      else
        (case embedQuery e (nullish query []) w of
           (Inl err, w1) \<Rightarrow> (Inl err, w1)
         | (Inr queryEmbedding, w1) \<Rightarrow>
             (case ensureCollection e s w1 of
                (Inl err, w2) \<Rightarrow> (Inl err, w2)
              | (Inr u, w2) \<Rightarrow>
                  (case client_search e (collectionName s)
                          \<lparr> req_vector = queryEmbedding,
                            limit = Some (nullish (case options of None \<Rightarrow> None
                                                   | Some opts \<Rightarrow> opt_fetchK opts) 20),
                            req_filter = (case options of None \<Rightarrow> None
                                          | Some opts \<Rightarrow> opt_filter opts),
                            with_payload = [metadataPayloadKey s, contentPayloadKey s],
                            with_vector = True \<rparr> w2 of
                     (Inl err, w3) \<Rightarrow> (Inl err, w3)
                   | (Inr results, w3) \<Rightarrow>
                       (case options of
                          None \<Rightarrow> (Inl TypeError, w3)
                        | Some opts \<Rightarrow>
                            (let embeddingList = map hit_vector results;
                                 mmrIndexes = mmr e queryEmbedding embeddingList
                                                (opt_lambda opts) (opt_k opts)
                             in case map_throwing (result_at results) mmrIndexes of
                                  Inl err \<Rightarrow> (Inl err, w3)
                                | Inr topMmrMatches \<Rightarrow>
                                    (map_throwing (hit_document e s) topMmrMatches, w3)))))))"

subsection \<open>Auxiliary definitions for the statements\<close>

text \<open>
  The slices the loop of \<open>delete\<close> cuts, as a list: the same recursion as \<open>delete_loop\<close>
  without the calls.
\<close>

function batches :: "string list \<Rightarrow> nat \<Rightarrow> string list list" where
  "batches xs i =
     (if i < length xs then take batchSize (drop i xs) # batches xs (i + batchSize) else [])"
  by pat_completeness auto
termination
  by (relation "measure (\<lambda>(xs, i). length xs - i)") (auto simp: batchSize_def)

text \<open>Concrete inputs: an outside that accepts every call, a fresh world, a default store.\<close>

definition e0 :: env where
  "e0 = \<lparr> rejects = (\<lambda>h c. False),
          search_reply = (\<lambda>n r. []),
          embed_query = (\<lambda>t. [1, 2, 3]),
          embed_documents = (\<lambda>ts. map (\<lambda>t. [1, 2, 3]) ts),
          mmr = (\<lambda>q vs l k. []),
          uuid_gen = (\<lambda>n. replicate (Suc n) CHR ''u''),
          number_toString = (\<lambda>x. ''0'') \<rparr>"

definition w0 :: world where
  "w0 = \<lparr> calls = [], collections = [], uuid_count = 0 \<rparr>"

definition s0 :: store where
  "s0 = \<lparr> client = ClientHandle 0, collectionName = ''documents'', collectionConfig = None,
          contentPayloadKey = ''content'', metadataPayloadKey = ''metadata'' \<rparr>"

definition p_both :: delete_params where
  "p_both = \<lparr> ids = Some [''a''], shardKey = None, filter_p = Some [(''must'', Obj [])] \<rparr>"

definition p_neither :: delete_params where
  "p_neither = \<lparr> ids = None, shardKey = None, filter_p = None \<rparr>"

definition p_many :: delete_params where
  "p_many = \<lparr> ids = Some (replicate 1001 ''a''), shardKey = None, filter_p = None \<rparr>"

text \<open>Which calls are searches, upserts, creations; further concrete inputs.\<close>

definition is_create :: "call \<Rightarrow> bool" where
  "is_create c = (case c of CreateCollection n cfg \<Rightarrow> True | _ \<Rightarrow> False)"

definition w_listed :: world where
  "w_listed = \<lparr> calls = [], collections = [''documents''], uuid_count = 0 \<rparr>"

definition is_search :: "call \<Rightarrow> bool" where
  "is_search c = (case c of Search n r \<Rightarrow> True | _ \<Rightarrow> False)"

definition is_upsert :: "call \<Rightarrow> bool" where
  "is_upsert c = (case c of Upsert n wt ps \<Rightarrow> True | _ \<Rightarrow> False)"

definition generated_before :: "document list \<Rightarrow> nat \<Rightarrow> nat" where
  "generated_before ds i = length (filter (\<lambda>d. doc_id d = None) (take i ds))"

definition doc1 :: document where
  "doc1 = \<lparr> doc_id = Some ''d1'', pageContent = ''hello'', metadata = Obj [(''source'', Str ''a.txt'')] \<rparr>"

definition doc2 :: document where
  "doc2 = \<lparr> doc_id = None, pageContent = ''world'', metadata = Obj [] \<rparr>"

text \<open>
  Stores whose content key, or metadata key, is the name of the third property of the
  payload; the points they send; extra payload for the first document only.
\<close>

definition s_content_custom :: store where
  "s_content_custom = s0\<lparr> contentPayloadKey := ''customPayload'' \<rparr>"

definition s_metadata_custom :: store where
  "s_metadata_custom = s0\<lparr> metadataPayloadKey := ''customPayload'' \<rparr>"

definition pt_lost_content :: point where
  "pt_lost_content =
     \<lparr> point_id = ''d1'', point_vector = [1, 2],
       payload = [(''customPayload'', Undefined),
                  (''metadata'', Obj [(''source'', Str ''a.txt'')])] \<rparr>"

definition pt_lost_metadata :: point where
  "pt_lost_metadata =
     \<lparr> point_id = ''d1'', point_vector = [1, 2],
       payload = [(''content'', Str ''hello''), (''customPayload'', Undefined)] \<rparr>"

definition extra0 :: "jsval list" where
  "extra0 = [Obj [(''tag'', Str ''x'')]]"

definition pt1 :: point where
  "pt1 = \<lparr> point_id = ''d1'', point_vector = [1, 2],
           payload = [(''content'', Str ''hello''),
                      (''metadata'', Obj [(''source'', Str ''a.txt'')]),
                      (''customPayload'', Obj [(''tag'', Str ''x'')])] \<rparr>"

definition pt2 :: point where
  "pt2 = \<lparr> point_id = ''u'', point_vector = [3, 4],
           payload = [(''content'', Str ''world''), (''metadata'', Obj []),
                      (''customPayload'', Undefined)] \<rparr>"

text \<open>
  Environments with and without \<open>QDRANT_URL\<close>, a client constructor that refuses a URL
  without scheme as the library does, and arguments of the constructor.
\<close>

definition getenv0 :: "string \<Rightarrow> string option" where
  "getenv0 = (\<lambda>name. None)"

definition getenv_url :: "string \<Rightarrow> string option" where
  "getenv_url = (\<lambda>name. if name = ''QDRANT_URL'' then Some ''http://localhost:6333'' else None)"

definition newClient0 :: "string option \<Rightarrow> string option \<Rightarrow> qclient io" where
  "newClient0 url apiKey w =
     (if take 7 (nullish url []) = ''http://'' \<or> take 8 (nullish url []) = ''https://''
      then (Inr (NewQdrantClient url apiKey), w)
      else (Inl (LibraryError ''QdrantClientConfigError''), w))"

definition args0 :: lib_args where
  "args0 = \<lparr> arg_client = None, arg_url = None, arg_apiKey = None, arg_collectionName = None,
             arg_collectionConfig = None, arg_contentPayloadKey = None,
             arg_metadataPayloadKey = None \<rparr>"

definition args_url :: lib_args where
  "args_url = args0\<lparr> arg_url := Some ''http://localhost:6333'', arg_collectionName := Some ''notes'' \<rparr>"

definition args_empty_url :: lib_args where
  "args_empty_url = args0\<lparr> arg_url := Some [] \<rparr>"

definition args_client :: lib_args where
  "args_client = args0\<lparr> arg_client := Some (ClientHandle 7), arg_contentPayloadKey := Some ''text'' \<rparr>"

text \<open>
  Three hits in the order of their similarity to the query embedding, the second nearly
  the first, and a selection that picks the first, then the third.
\<close>

definition hitA :: hit where
  "hitA = \<lparr> hit_id = ''a'', hit_vector = [4, 1, 0],
            hit_payload = Some [(''content'', Str ''alpha''),
                                (''metadata'', Obj [(''page'', Number 1)])],
            score = 97 / 100 \<rparr>"

definition hitB :: hit where
  "hitB = \<lparr> hit_id = ''b'', hit_vector = [40, 11, 0],
            hit_payload = Some [(''content'', Str ''beta''), (''metadata'', Obj [])],
            score = 96 / 100 \<rparr>"

definition hitC :: hit where
  "hitC = \<lparr> hit_id = ''c'', hit_vector = [4, - 2, 0],
            hit_payload = Some [(''content'', Str ''gamma'')],
            score = 89 / 100 \<rparr>"

definition e1 :: env where
  "e1 = e0\<lparr> embed_query := (\<lambda>t. [1, 0, 0]),
            search_reply := (\<lambda>n r. [hitA, hitB, hitC]),
            mmr := (\<lambda>q vs l k. [0, 2]) \<rparr>"

definition opts0 :: mmr_options where
  "opts0 = \<lparr> opt_k = 2, opt_fetchK = None, opt_lambda = Some (1 / 2), opt_filter = None \<rparr>"

section \<open>Properties\<close>

declare delete_loop.simps [simp del]
declare batches.simps [simp del]

subsection \<open>Calls and the collection check\<close>

lemma await_accepted:
  "\<not> rejects e (calls w) c \<Longrightarrow>
   await e c effect reply w =
     (Inr (reply (w\<lparr>calls := calls w @ [c]\<rparr>)), effect (w\<lparr>calls := calls w @ [c]\<rparr>))"
  by (simp add: await_def Let_def)

lemma e0_accepts: "\<forall>h c. \<not> rejects e0 h c"
  by (simp add: e0_def)

lemma ensure_present:
  assumes "\<forall>h c. \<not> rejects e h c" and "collectionName s \<in> set (collections w)"
  shows "ensureCollection e s w = (Inr (), w\<lparr>calls := calls w @ [GetCollections]\<rparr>)"
  using assms by (simp add: ensureCollection_def client_getCollections_def await_accepted)

lemma ensure_absent_config:
  assumes "\<forall>h c. \<not> rejects e h c" and "collectionName s \<notin> set (collections w)"
    and "collectionConfig s = Some cfg"
  shows "ensureCollection e s w =
     (Inr (), w\<lparr>calls := calls w @ [GetCollections, CreateCollection (collectionName s) cfg],
                collections := collections w @ [collectionName s]\<rparr>)"
  using assms
  by (simp add: ensureCollection_def client_getCollections_def client_createCollection_def
      await_accepted)

lemma ensure_absent_default:
  assumes "\<forall>h c. \<not> rejects e h c" and "collectionName s \<notin> set (collections w)"
    and "collectionConfig s = None"
  shows "ensureCollection e s w =
     (Inr (), w\<lparr>calls := calls w @ [GetCollections, EmbedQuery ''test'',
                   CreateCollection (collectionName s) (default_config (embed_query e ''test''))],
                collections := collections w @ [collectionName s]\<rparr>)"
  using assms
  by (simp add: ensureCollection_def client_getCollections_def client_createCollection_def
      embedQuery_def await_accepted)

lemma ensure_calls:
  "\<exists>new. calls (snd (ensureCollection e s w)) = calls w @ new \<and>
     (\<forall>c\<in>set new. c = GetCollections \<or> c = EmbedQuery ''test'' \<or>
        (\<exists>cfg. c = CreateCollection (collectionName s) cfg))"
  by (auto simp: ensureCollection_def client_getCollections_def client_createCollection_def
      embedQuery_def await_def Let_def split: option.splits)

subsection \<open>The slices of the delete loop\<close>

lemma batchSize_pos: "0 < batchSize"
  by (simp add: batchSize_def)

lemma ceil_div_short:
  fixes n k :: nat
  assumes "0 < n" and "n < k"
  shows "(n + (k - 1)) div k = 1"
proof (rule div_nat_eqI)
  show "k * 1 \<le> n + (k - 1)" using assms by simp
  show "n + (k - 1) < k * Suc 1" using assms by simp
qed

lemma ceil_div_long:
  fixes n k :: nat
  assumes "k \<le> n" and "0 < k"
  shows "(n + (k - 1)) div k = Suc ((n - k + (k - 1)) div k)"
proof -
  define m where "m = n - k + (k - 1)"
  have "n + (k - 1) = m + k"
    using assms by (simp add: m_def)
  then have "(n + (k - 1)) div k = (m + k) div k"
    by simp
  also have "\<dots> = Suc (m div k)"
    using assms(2) by simp
  finally show ?thesis
    unfolding m_def .
qed

lemma batches_done: "length xs \<le> i \<Longrightarrow> batches xs i = []"
  by (simp add: batches.simps [of xs i])

lemma delete_loop_done: "length xs \<le> i \<Longrightarrow> delete_loop e s xs i w = (Inr (), w)"
  by (simp add: delete_loop.simps [of e s xs i w])

lemma delete_loop_accepted:
  assumes acc: "\<forall>h c. \<not> rejects e h c"
  shows "delete_loop e s xs i w =
    (Inr (), w\<lparr>calls := calls w @
        map (DeletePoints (collectionName s) True ''weak'') (batches xs i)\<rparr>)"
proof (induction xs i arbitrary: w rule: batches.induct)
  case (1 xs i)
  show ?case
  proof (cases "i < length xs")
    case True
    let ?w1 = "w\<lparr>calls := calls w @
        [DeletePoints (collectionName s) True ''weak'' (take batchSize (drop i xs))]\<rparr>"
    have step: "client_delete_points e (collectionName s) True ''weak''
        (take batchSize (drop i xs)) w = (Inr (), ?w1)"
      using acc by (simp add: client_delete_points_def await_accepted)
    have "delete_loop e s xs i w = delete_loop e s xs (i + batchSize) ?w1"
      using True step by (simp add: delete_loop.simps [of e s xs i w])
    also have "\<dots> = (Inr (), ?w1\<lparr>calls := calls ?w1 @
        map (DeletePoints (collectionName s) True ''weak'') (batches xs (i + batchSize))\<rparr>)"
      using "1.IH" [OF True] .
    finally show ?thesis
      using True by (simp add: batches.simps [of xs i])
  next
    case False
    then show ?thesis
      by (simp add: delete_loop.simps [of e s xs i w] batches.simps [of xs i])
  qed
qed

lemma concat_batches: "concat (batches xs i) = drop i xs"
proof (induction xs i rule: batches.induct)
  case (1 xs i)
  show ?case
  proof (cases "i < length xs")
    case True
    have "concat (batches xs i) = take batchSize (drop i xs) @ drop (i + batchSize) xs"
      using True "1.IH" by (simp add: batches.simps [of xs i])
    also have "drop (i + batchSize) xs = drop batchSize (drop i xs)"
      by (simp add: add.commute)
    finally show ?thesis
      by (simp only: append_take_drop_id)
  next
    case False
    then show ?thesis by (simp add: batches.simps [of xs i])
  qed
qed

lemma batches_bounds: "b \<in> set (batches xs i) \<Longrightarrow> b \<noteq> [] \<and> length b \<le> batchSize"
proof (induction xs i rule: batches.induct)
  case (1 xs i)
  show ?case
  proof (cases "i < length xs")
    case True
    with "1.prems" have "b = take batchSize (drop i xs) \<or> b \<in> set (batches xs (i + batchSize))"
      by (simp add: batches.simps [of xs i])
    then show ?thesis
    proof
      assume "b = take batchSize (drop i xs)"
      with True show ?thesis by (auto simp: batchSize_def)
    next
      assume "b \<in> set (batches xs (i + batchSize))"
      with "1.IH" [OF True] show ?thesis .
    qed
  next
    case False
    with "1.prems" show ?thesis by (simp add: batches.simps [of xs i])
  qed
qed

lemma length_batches: "length (batches xs i) = (length xs - i + (batchSize - 1)) div batchSize"
proof (induction xs i rule: batches.induct)
  case (1 xs i)
  show ?case
  proof (cases "i < length xs")
    case True
    have len: "length (batches xs i) =
        Suc ((length xs - i - batchSize + (batchSize - 1)) div batchSize)"
      using True "1.IH" by (simp add: batches.simps [of xs i])
    show ?thesis
    proof (cases "length xs - i < batchSize")
      case short: True
      from True have "0 < length xs - i" by simp
      from ceil_div_short [OF this short]
      have "(length xs - i + (batchSize - 1)) div batchSize = 1" .
      moreover from short have "length xs - i - batchSize = 0"
        by simp
      moreover have "(batchSize - 1) div batchSize = 0"
        using batchSize_pos by simp
      ultimately show ?thesis
        using len by simp
    next
      case long: False
      then have "batchSize \<le> length xs - i" by simp
      from ceil_div_long [OF this batchSize_pos] len show ?thesis by (simp only:)
    qed
  next
    case False
    then have "length xs - i = 0" by simp
    moreover have "(batchSize - 1) div batchSize = 0"
      using batchSize_pos by simp
    ultimately show ?thesis
      using False by (simp add: batches.simps [of xs i])
  qed
qed

subsection \<open>delete\<close>

text \<open>
  Claim C1, as stated: a call with both identifiers and a filter fails before any remote
  call. It does not: the branch on the identifiers is taken, the filter is never looked
  at, the call resolves and one remote delete has been issued.
\<close>

theorem delete_both_counterexample:
  "delete e0 s0 p_both w0 =
     (Inr (), w0\<lparr>calls := [DeletePoints ''documents'' True ''weak'' [''a'']]\<rparr>)"
proof -
  from delete_loop_accepted [OF e0_accepts, of s0 "[''a'']" 0 w0]
  show ?thesis
    by (simp add: delete_def p_both_def s0_def w0_def batches.simps [of _ 0]
        batches_done batchSize_def)
qed

text \<open>
  Claim C1, amended: with neither identifiers nor a filter the call fails with the
  missing-arguments error and the world is untouched, so no remote call was made; with
  identifiers the filter is ignored (the call behaves as if no filter had been given);
  and the list of calls changes only when at least one of the two is given.
\<close>

theorem delete_argument_check:
  "(ids p = None \<and> filter_p p = None \<longrightarrow>
      delete e s p w = (Inl (Error ''Either ids or filter must be provided.''), w)) \<and>
   (ids p \<noteq> None \<longrightarrow> delete e s p w = delete e s (p\<lparr>filter_p := None\<rparr>) w) \<and>
   (calls (snd (delete e s p w)) \<noteq> calls w \<longrightarrow> ids p \<noteq> None \<or> filter_p p \<noteq> None)"
  by (auto simp: delete_def split: option.splits)

theorem delete_argument_check_witness:
  "delete e0 s0 p_neither w0 = (Inl (Error ''Either ids or filter must be provided.''), w0) \<and>
   delete e0 s0 p_both w0 = delete e0 s0 (p_both\<lparr>filter_p := None\<rparr>) w0 \<and>
   ids p_both \<noteq> None"
  using delete_argument_check [of p_neither e0 s0 w0] delete_argument_check [of p_both e0 s0 w0]
  by (simp add: p_neither_def p_both_def)

text \<open>
  Claim C4: when the remote service accepts the calls, deleting the identifiers \<open>xs\<close>
  issues the remote delete calls of a list \<open>bs\<close> of chunks, one call per chunk and in
  their order; the chunks concatenated are \<open>xs\<close>, so they are consecutive and every
  identifier is in exactly one of them; no chunk is empty or longer than 1000; there are
  \<open>\<lceil>n / 1000\<rceil>\<close> of them, hence more than one for more than 1000 identifiers.
\<close>

theorem delete_ids_chunked:
  assumes "\<forall>h c. \<not> rejects e h c" and "ids p = Some xs"
  shows "\<exists>bs. delete e s p w =
           (Inr (), w\<lparr>calls := calls w @ map (DeletePoints (collectionName s) True ''weak'') bs\<rparr>) \<and>
         concat bs = xs \<and>
         (\<forall>b\<in>set bs. b \<noteq> [] \<and> length b \<le> 1000) \<and>
         length bs = (length xs + 999) div 1000 \<and>
         (1000 < length xs \<longrightarrow> 1 < length bs)"
proof (intro exI conjI)
  show "delete e s p w =
      (Inr (), w\<lparr>calls := calls w @
         map (DeletePoints (collectionName s) True ''weak'') (batches xs 0)\<rparr>)"
    using assms by (simp add: delete_def delete_loop_accepted)
  show "concat (batches xs 0) = xs"
    by (simp add: concat_batches)
  show "\<forall>b\<in>set (batches xs 0). b \<noteq> [] \<and> length b \<le> 1000"
    using batches_bounds [of _ xs 0] by (simp add: batchSize_def)
  show len: "length (batches xs 0) = (length xs + 999) div 1000"
    using length_batches [of xs 0] by (simp add: batchSize_def)
  show "1000 < length xs \<longrightarrow> 1 < length (batches xs 0)"
  proof
    assume "1000 < length xs"
    then have "2 * 1000 \<le> length xs + 999" by simp
    then have "2 \<le> (length xs + 999) div 1000"
      by (simp add: less_eq_div_iff_mult_less_eq)
    with len show "1 < length (batches xs 0)" by simp
  qed
qed

theorem delete_ids_chunked_witness:
  "length (calls (snd (delete e0 s0 p_many w0))) = 2"
proof -
  have p: "ids p_many = Some (replicate 1001 ''a'')" by (simp add: p_many_def)
  from delete_ids_chunked [OF e0_accepts p, of s0 w0] show ?thesis
    by (auto simp: w0_def)
qed

text \<open>
  Claim C10: deleting with an empty list of identifiers and no filter resolves; the world
  is returned as it was, so neither the missing-arguments error is raised nor a remote
  delete call issued.
\<close>

theorem delete_empty_ids_resolves:
  "delete e s \<lparr> ids = Some [], shardKey = sk, filter_p = None \<rparr> w = (Inr (), w)"
  by (simp add: delete_def delete_loop_done)

subsection \<open>addVectors\<close>

text \<open>
  Claim C8: adding an empty array of vectors returns without error and leaves the world
  as it was: no collection listing, no collection creation, no upsert.
\<close>

theorem addVectors_empty_noop:
  "addVectors e s [] documents documentOptions w = (Inr (), w)"
  by (simp add: addVectors_def)

subsection \<open>Searching, construction and the collection check\<close>

text \<open>
  Claim C2, as stated: an empty query vector gives the empty list without any remote
  call. An empty array is truthy, so the guard \<open>!query\<close> of line 159 lets it through: the
  collections are listed (here also created) and the search is sent with the empty vector.
\<close>

theorem search_empty_vector_counterexample:
  "calls (snd (similaritySearchVectorWithScore e0 s0 (Some []) None None w0)) =
     [GetCollections, EmbedQuery ''test'',
      CreateCollection ''documents''
        (Obj [(''vectors'', Obj [(''size'', Number 3), (''distance'', Str ''Cosine'')])]),
      Search ''documents''
        \<lparr> req_vector = [], limit = None, req_filter = None,
          with_payload = [''metadata'', ''content''], with_vector = False \<rparr>]"
proof -
  have "collectionName s0 \<notin> set (collections w0)" "collectionConfig s0 = None"
    by (simp_all add: s0_def w0_def)
  from ensure_absent_default [OF e0_accepts this] show ?thesis
    by (simp add: similaritySearchVectorWithScore_def client_search_def await_def
        default_config_def e0_def s0_def w0_def)
qed

text \<open>
  Claim C2, amended: with an absent query vector the result is the empty list and the
  world is untouched, so no remote call (listing, creation or search) was made.
\<close>

theorem search_absent_vector_empty:
  "similaritySearchVectorWithScore e s None k flt w = (Inr [], w)"
  by (simp add: similaritySearchVectorWithScore_def)

text \<open>
  Claim C7, as stated: when a URL is available in the environment, construction succeeds.
  Line 57 falls back to the environment only for an absent argument (\<open>??\<close>): with the
  empty string as the URL argument and \<open>QDRANT_URL\<close> set, construction fails.
\<close>

theorem constructor_empty_url_counterexample:
  "getenv_url ''QDRANT_URL'' = Some ''http://localhost:6333'' \<and>
   new_QdrantVectorStore getenv_url newClient0 args_empty_url w0 =
     (Inl (Error ''Qdrant client or url address must be set.''), w0)"
  by (simp add: new_QdrantVectorStore_def truthy_str_def getenv_url_def args_empty_url_def
      args0_def)

text \<open>
  Claim C7, amended: without a client handle, construction fails with the configuration
  error, the world untouched, when the URL argument is the empty string, or is absent
  while \<open>QDRANT_URL\<close> is absent or empty. With a client handle it succeeds, nothing
  being contacted or built. Without one and with a non-empty URL, from the argument or,
  the argument being absent, from the environment, the client is built from that URL and
  the API key: construction fails with the error of the client library when that throws,
  and succeeds otherwise. Whenever it succeeds, the collection name and the two payload
  key names are the supplied values or the defaults \<open>documents\<close>, \<open>content\<close> and
  \<open>metadata\<close>.
\<close>

theorem constructor_requires_client_or_url:
  "(arg_client args = None \<and>
    (arg_url args = Some [] \<or>
     arg_url args = None \<and> (getenv ''QDRANT_URL'' = None \<or> getenv ''QDRANT_URL'' = Some [])) \<longrightarrow>
      new_QdrantVectorStore getenv newClient args w =
        (Inl (Error ''Qdrant client or url address must be set.''), w)) \<and>
   (\<forall>c. arg_client args = Some c \<longrightarrow>
      new_QdrantVectorStore getenv newClient args w = (Inr (store_fields args c), w)) \<and>
   (\<forall>u. arg_client args = None \<and> u \<noteq> [] \<and>
        (arg_url args = Some u \<or> arg_url args = None \<and> getenv ''QDRANT_URL'' = Some u) \<longrightarrow>
      (case newClient (Some u)
              (case arg_apiKey args of None \<Rightarrow> getenv ''QDRANT_API_KEY'' | Some k \<Rightarrow> Some k) w of
         (Inl err, w1) \<Rightarrow> new_QdrantVectorStore getenv newClient args w = (Inl err, w1)
       | (Inr c, w1) \<Rightarrow>
           new_QdrantVectorStore getenv newClient args w = (Inr (store_fields args c), w1))) \<and>
   (\<forall>c. client (store_fields args c) = c \<and>
      collectionName (store_fields args c) =
        (case arg_collectionName args of None \<Rightarrow> ''documents'' | Some n \<Rightarrow> n) \<and>
      contentPayloadKey (store_fields args c) =
        (case arg_contentPayloadKey args of None \<Rightarrow> ''content'' | Some k \<Rightarrow> k) \<and>
      metadataPayloadKey (store_fields args c) =
        (case arg_metadataPayloadKey args of None \<Rightarrow> ''metadata'' | Some k \<Rightarrow> k))"
proof (intro conjI allI impI)
  assume "arg_client args = None \<and>
    (arg_url args = Some [] \<or>
     arg_url args = None \<and> (getenv ''QDRANT_URL'' = None \<or> getenv ''QDRANT_URL'' = Some []))"
  then show "new_QdrantVectorStore getenv newClient args w =
        (Inl (Error ''Qdrant client or url address must be set.''), w)"
    by (auto simp: new_QdrantVectorStore_def truthy_str_def)
next
  fix c assume "arg_client args = Some c"
  then show "new_QdrantVectorStore getenv newClient args w = (Inr (store_fields args c), w)"
    by (simp add: new_QdrantVectorStore_def Let_def)
next
  fix u
  assume u: "arg_client args = None \<and> u \<noteq> [] \<and>
        (arg_url args = Some u \<or> arg_url args = None \<and> getenv ''QDRANT_URL'' = Some u)"
  let ?k = "case arg_apiKey args of None \<Rightarrow> getenv ''QDRANT_API_KEY'' | Some k \<Rightarrow> Some k"
  from u have url: "(case arg_url args of None \<Rightarrow> getenv ''QDRANT_URL'' | Some u \<Rightarrow> Some u) = Some u"
    by auto
  from u have run: "new_QdrantVectorStore getenv newClient args w =
      (case newClient (Some u) ?k w of
         (Inl err, w1) \<Rightarrow> (Inl err, w1)
       | (Inr c, w1) \<Rightarrow> (Inr (store_fields args c), w1))"
    by (simp add: new_QdrantVectorStore_def Let_def url truthy_str_def)
  show "case newClient (Some u) ?k w of
         (Inl err, w1) \<Rightarrow> new_QdrantVectorStore getenv newClient args w = (Inl err, w1)
       | (Inr c, w1) \<Rightarrow>
           new_QdrantVectorStore getenv newClient args w = (Inr (store_fields args c), w1)"
    unfolding run by (simp split: prod.splits sum.splits)
next
  fix c
  show "client (store_fields args c) = c"
    by (simp add: store_fields_def)
  show "collectionName (store_fields args c) =
        (case arg_collectionName args of None \<Rightarrow> ''documents'' | Some n \<Rightarrow> n)"
    by (simp add: store_fields_def nullish_def)
  show "contentPayloadKey (store_fields args c) =
        (case arg_contentPayloadKey args of None \<Rightarrow> ''content'' | Some k \<Rightarrow> k)"
    by (simp add: store_fields_def nullish_def CONTENT_KEY_def)
  show "metadataPayloadKey (store_fields args c) =
        (case arg_metadataPayloadKey args of None \<Rightarrow> ''metadata'' | Some k \<Rightarrow> k)"
    by (simp add: store_fields_def nullish_def METADATA_KEY_def)
qed

theorem constructor_requires_client_or_url_witness:
  "new_QdrantVectorStore getenv0 newClient0 args0 w0 =
     (Inl (Error ''Qdrant client or url address must be set.''), w0) \<and>
   new_QdrantVectorStore getenv0 newClient0 args_client w0 =
     (Inr \<lparr> client = ClientHandle 7, collectionName = ''documents'', collectionConfig = None,
            contentPayloadKey = ''text'', metadataPayloadKey = ''metadata'' \<rparr>, w0) \<and>
   new_QdrantVectorStore getenv0 newClient0 args_url w0 =
     (Inr \<lparr> client = NewQdrantClient (Some ''http://localhost:6333'') None,
            collectionName = ''notes'', collectionConfig = None,
            contentPayloadKey = ''content'', metadataPayloadKey = ''metadata'' \<rparr>, w0)"
proof -
  note t0 = constructor_requires_client_or_url [of args0 getenv0 newClient0 w0]
  note tc = constructor_requires_client_or_url [of args_client getenv0 newClient0 w0]
  note tu = constructor_requires_client_or_url [of args_url getenv0 newClient0 w0]
  have a: "arg_client args0 = None \<and>
    (arg_url args0 = Some [] \<or>
     arg_url args0 = None \<and> (getenv0 ''QDRANT_URL'' = None \<or> getenv0 ''QDRANT_URL'' = Some []))"
    by (simp add: args0_def getenv0_def)
  with t0 have first: "new_QdrantVectorStore getenv0 newClient0 args0 w0 =
     (Inl (Error ''Qdrant client or url address must be set.''), w0)"
    by blast
  have "arg_client args_client = Some (ClientHandle 7)"
    by (simp add: args_client_def)
  with tc have "new_QdrantVectorStore getenv0 newClient0 args_client w0 =
      (Inr (store_fields args_client (ClientHandle 7)), w0)"
    by blast
  then have second: "new_QdrantVectorStore getenv0 newClient0 args_client w0 =
     (Inr \<lparr> client = ClientHandle 7, collectionName = ''documents'', collectionConfig = None,
            contentPayloadKey = ''text'', metadataPayloadKey = ''metadata'' \<rparr>, w0)"
    by (simp add: store_fields_def nullish_def args_client_def args0_def METADATA_KEY_def)
  have b: "arg_client args_url = None \<and> ''http://localhost:6333'' \<noteq> [] \<and>
        (arg_url args_url = Some ''http://localhost:6333'' \<or>
         arg_url args_url = None \<and> getenv0 ''QDRANT_URL'' = Some ''http://localhost:6333'')"
    by (simp add: args_url_def args0_def)
  note url_case = tu [THEN conjunct2, THEN conjunct2, THEN conjunct1, rule_format,
      of "''http://localhost:6333''"]
  from url_case [OF b]
  have "case newClient0 (Some ''http://localhost:6333'')
              (case arg_apiKey args_url of None \<Rightarrow> getenv0 ''QDRANT_API_KEY'' | Some k \<Rightarrow> Some k) w0 of
         (Inl err, w1) \<Rightarrow> new_QdrantVectorStore getenv0 newClient0 args_url w0 = (Inl err, w1)
       | (Inr c, w1) \<Rightarrow>
           new_QdrantVectorStore getenv0 newClient0 args_url w0 = (Inr (store_fields args_url c), w1)" .
  then have third: "new_QdrantVectorStore getenv0 newClient0 args_url w0 =
     (Inr \<lparr> client = NewQdrantClient (Some ''http://localhost:6333'') None,
            collectionName = ''notes'', collectionConfig = None,
            contentPayloadKey = ''content'', metadataPayloadKey = ''metadata'' \<rparr>, w0)"
    by (simp add: newClient0_def nullish_def args_url_def args0_def getenv0_def store_fields_def
        CONTENT_KEY_def METADATA_KEY_def)
  from first second third show ?thesis by (intro conjI)
qed

text \<open>
  Claim C6: when the remote service accepts the calls, \<open>ensureCollection\<close> lists the
  collections and does nothing more when the target is listed; when it is not, it creates
  the target with the configuration of the caller if there is one, and otherwise with a
  vector size that is the length of the probe embedding of \<open>test\<close> and the distance
  \<open>Cosine\<close>. A second call right after the first only lists, whatever the first did; so
  two calls on a fresh target create the collection exactly once.
\<close>

theorem ensureCollection_idempotent:
  assumes acc: "\<forall>h c. \<not> rejects e h c"
  shows "(collectionName s \<in> set (collections w) \<longrightarrow>
            ensureCollection e s w = (Inr (), w\<lparr>calls := calls w @ [GetCollections]\<rparr>)) \<and>
         (collectionName s \<notin> set (collections w) \<longrightarrow>
            ensureCollection e s w =
              (Inr (), w\<lparr>calls := calls w @
                   (case collectionConfig s of
                      Some cfg \<Rightarrow> [GetCollections, CreateCollection (collectionName s) cfg]
                    | None \<Rightarrow>
                        [GetCollections, EmbedQuery ''test'',
                         CreateCollection (collectionName s)
                           (Obj [(''vectors'',
                              Obj [(''size'', Number (real (length (embed_query e ''test'')))),
                                   (''distance'', Str ''Cosine'')])])]),
                 collections := collections w @ [collectionName s]\<rparr>) \<and>
            length (filter is_create
              (calls (snd (ensureCollection e s (snd (ensureCollection e s w)))))) =
              Suc (length (filter is_create (calls w)))) \<and>
         ensureCollection e s (snd (ensureCollection e s w)) =
           (Inr (), (snd (ensureCollection e s w))
              \<lparr>calls := calls (snd (ensureCollection e s w)) @ [GetCollections]\<rparr>)"
proof (cases "collectionName s \<in> set (collections w)")
  case True
  from ensure_present [OF acc True]
  have one: "ensureCollection e s w = (Inr (), w\<lparr>calls := calls w @ [GetCollections]\<rparr>)" .
  have "collectionName s \<in> set (collections (w\<lparr>calls := calls w @ [GetCollections]\<rparr>))"
    using True by simp
  from ensure_present [OF acc this] one True show ?thesis
    by simp
next
  case False
  show ?thesis
  proof (cases "collectionConfig s")
    case None
    let ?w1 = "w\<lparr>calls := calls w @ [GetCollections, EmbedQuery ''test'',
                   CreateCollection (collectionName s) (default_config (embed_query e ''test''))],
                collections := collections w @ [collectionName s]\<rparr>"
    from ensure_absent_default [OF acc False None]
    have one: "ensureCollection e s w = (Inr (), ?w1)" .
    have "collectionName s \<in> set (collections ?w1)" by simp
    from ensure_present [OF acc this]
    have two: "ensureCollection e s ?w1 = (Inr (), ?w1\<lparr>calls := calls ?w1 @ [GetCollections]\<rparr>)" .
    show ?thesis
      using False None
      by (simp add: one [unfolded default_config_def] two [unfolded default_config_def]
          is_create_def)
  next
    case (Some cfg)
    let ?w1 = "w\<lparr>calls := calls w @ [GetCollections, CreateCollection (collectionName s) cfg],
                collections := collections w @ [collectionName s]\<rparr>"
    from ensure_absent_config [OF acc False Some]
    have one: "ensureCollection e s w = (Inr (), ?w1)" .
    have "collectionName s \<in> set (collections ?w1)" by simp
    from ensure_present [OF acc this]
    have two: "ensureCollection e s ?w1 = (Inr (), ?w1\<lparr>calls := calls ?w1 @ [GetCollections]\<rparr>)" .
    show ?thesis
      using False Some by (simp add: one two is_create_def)
  qed
qed

theorem ensureCollection_idempotent_witness:
  "ensureCollection e0 s0 w_listed = (Inr (), w_listed\<lparr>calls := [GetCollections]\<rparr>) \<and>
   calls (snd (ensureCollection e0 s0 (snd (ensureCollection e0 s0 w0)))) =
     [GetCollections, EmbedQuery ''test'',
      CreateCollection ''documents''
        (Obj [(''vectors'', Obj [(''size'', Number 3), (''distance'', Str ''Cosine'')])]),
      GetCollections]"
proof -
  have a: "collectionName s0 \<in> set (collections w_listed)"
    by (simp add: s0_def w_listed_def)
  have b: "collectionName s0 \<notin> set (collections w0)"
    by (simp add: s0_def w0_def)
  have c: "collectionConfig s0 = None" "embed_query e0 ''test'' = [1, 2, 3]"
    "collectionName s0 = ''documents''" "calls w0 = []" "calls w_listed = []"
    by (simp_all add: s0_def e0_def w0_def w_listed_def)
  note listed = ensureCollection_idempotent [OF e0_accepts, of s0 w_listed]
  note fresh = ensureCollection_idempotent [OF e0_accepts, of s0 w0]
  from listed a
  have "ensureCollection e0 s0 w_listed = (Inr (), w_listed\<lparr>calls := [GetCollections]\<rparr>)"
    by (simp add: c)
  moreover
  from fresh b have first: "calls (snd (ensureCollection e0 s0 w0)) =
     [GetCollections, EmbedQuery ''test'',
      CreateCollection ''documents''
        (Obj [(''vectors'', Obj [(''size'', Number 3), (''distance'', Str ''Cosine'')])])]"
    by (simp add: c)
  from fresh have "calls (snd (ensureCollection e0 s0 (snd (ensureCollection e0 s0 w0)))) =
     calls (snd (ensureCollection e0 s0 w0)) @ [GetCollections]"
    by simp
  with first have "calls (snd (ensureCollection e0 s0 (snd (ensureCollection e0 s0 w0)))) =
     [GetCollections, EmbedQuery ''test'',
      CreateCollection ''documents''
        (Obj [(''vectors'', Obj [(''size'', Number 3), (''distance'', Str ''Cosine'')])]),
      GetCollections]"
    by simp
  ultimately show ?thesis by blast
qed

subsection \<open>Building the points\<close>

lemma ensure_accepted:
  assumes acc: "\<forall>h c. \<not> rejects e h c"
  shows "\<exists>new cols. ensureCollection e s w =
            (Inr (), w\<lparr>calls := calls w @ new, collections := cols\<rparr>) \<and>
          filter is_upsert new = [] \<and> filter is_search new = []"
proof (cases "collectionName s \<in> set (collections w)")
  case True
  from ensure_present [OF acc True]
  have "ensureCollection e s w =
      (Inr (), w\<lparr>calls := calls w @ [GetCollections], collections := collections w\<rparr>)"
    by simp
  moreover have "filter is_upsert [GetCollections] = [] \<and> filter is_search [GetCollections] = []"
    by (simp add: is_upsert_def is_search_def)
  ultimately show ?thesis by blast
next
  case False
  show ?thesis
  proof (cases "collectionConfig s")
    case None
    let ?new = "[GetCollections, EmbedQuery ''test'',
       CreateCollection (collectionName s) (default_config (embed_query e ''test''))]"
    have "filter is_upsert ?new = [] \<and> filter is_search ?new = []"
      by (simp add: is_upsert_def is_search_def)
    with ensure_absent_default [OF acc False None] show ?thesis by blast
  next
    case (Some cfg)
    let ?new = "[GetCollections, CreateCollection (collectionName s) cfg]"
    have "filter is_upsert ?new = [] \<and> filter is_search ?new = []"
      by (simp add: is_upsert_def is_search_def)
    with ensure_absent_config [OF acc False Some] show ?thesis by blast
  qed
qed

lemma id_or_uuid_eq:
  "id_or_uuid e d w =
     ((case doc_id d of Some x \<Rightarrow> x | None \<Rightarrow> uuid_gen e (uuid_count w)),
      w\<lparr>uuid_count := uuid_count w + (if doc_id d = None then 1 else 0)\<rparr>)"
  by (simp add: id_or_uuid_def uuid_def split: option.splits)

lemma generated_before_0: "generated_before ds 0 = 0"
  by (simp add: generated_before_def)

lemma generated_before_Suc:
  "idx < length ds \<Longrightarrow>
   generated_before (drop idx ds) (Suc j) =
     (if doc_id (ds ! idx) = None then 1 else 0) + generated_before (drop (Suc idx) ds) j"
  by (simp add: generated_before_def Cons_nth_drop_Suc [symmetric])

lemma generated_before_step:
  "i < length ds \<Longrightarrow>
   generated_before ds (Suc i) =
     generated_before ds i + (if doc_id (ds ! i) = None then 1 else 0)"
  by (simp add: generated_before_def take_Suc_conv_app_nth)

lemma generated_before_mono: "i \<le> j \<Longrightarrow> generated_before ds i \<le> generated_before ds j"
proof -
  assume "i \<le> j"
  then have "take j ds = take i ds @ take (j - i) (drop i ds)"
    using take_add [of i "j - i" ds] by simp
  then show ?thesis
    by (simp add: generated_before_def)
qed

lemma generated_before_fresh:
  assumes "i < j" and "j < length ds" and "doc_id (ds ! i) = None"
  shows "generated_before ds i < generated_before ds j"
proof -
  from assms have "generated_before ds (Suc i) = generated_before ds i + 1"
    by (simp add: generated_before_step)
  moreover from assms(1) have "generated_before ds (Suc i) \<le> generated_before ds j"
    by (intro generated_before_mono) simp
  ultimately show ?thesis by simp
qed

lemma build_points_ok:
  "idx + length vs \<le> length ds \<Longrightarrow>
   \<exists>ps. build_points e s vs ds opts idx w =
           (Inr ps, w\<lparr>uuid_count := uuid_count w + generated_before (drop idx ds) (length vs)\<rparr>) \<and>
        length ps = length vs \<and>
        (\<forall>i<length vs.
           ps ! i =
             \<lparr> point_id = (case doc_id (ds ! (idx + i)) of
                              Some x \<Rightarrow> x
                            | None \<Rightarrow> uuid_gen e (uuid_count w + generated_before (drop idx ds) i)),
               point_vector = vs ! i,
               payload = make_payload s (ds ! (idx + i)) (custom_payload_at opts (idx + i)) \<rparr>)"
proof (induction vs arbitrary: idx w)
  case Nil
  then show ?case by (simp add: generated_before_0)
next
  case (Cons v vs)
  from Cons.prems have idx: "idx < length ds" and rest: "Suc idx + length vs \<le> length ds"
    by simp_all
  let ?w1 = "w\<lparr>uuid_count := uuid_count w + (if doc_id (ds ! idx) = None then 1 else 0)\<rparr>"
  let ?p = "\<lparr> point_id = (case doc_id (ds ! idx) of Some x \<Rightarrow> x
                           | None \<Rightarrow> uuid_gen e (uuid_count w)),
              point_vector = v,
              payload = make_payload s (ds ! idx) (custom_payload_at opts idx) \<rparr>"
  from Cons.IH [OF rest, of ?w1] obtain ps where
    ps: "build_points e s vs ds opts (Suc idx) ?w1 =
           (Inr ps, ?w1\<lparr>uuid_count := uuid_count ?w1 + generated_before (drop (Suc idx) ds) (length vs)\<rparr>)"
    and len: "length ps = length vs"
    and nth: "\<forall>i<length vs.
           ps ! i =
             \<lparr> point_id = (case doc_id (ds ! (Suc idx + i)) of
                              Some x \<Rightarrow> x
                            | None \<Rightarrow> uuid_gen e (uuid_count ?w1 + generated_before (drop (Suc idx) ds) i)),
               point_vector = vs ! i,
               payload = make_payload s (ds ! (Suc idx + i)) (custom_payload_at opts (Suc idx + i)) \<rparr>"
    by blast
  have run: "build_points e s (v # vs) ds opts idx w =
      (Inr (?p # ps), w\<lparr>uuid_count := uuid_count w + generated_before (drop idx ds) (length (v # vs))\<rparr>)"
    using idx ps by (simp add: id_or_uuid_eq generated_before_Suc)
  have "\<forall>i<length (v # vs). (?p # ps) ! i =
             \<lparr> point_id = (case doc_id (ds ! (idx + i)) of
                              Some x \<Rightarrow> x
                            | None \<Rightarrow> uuid_gen e (uuid_count w + generated_before (drop idx ds) i)),
               point_vector = (v # vs) ! i,
               payload = make_payload s (ds ! (idx + i)) (custom_payload_at opts (idx + i)) \<rparr>"
  proof (intro allI impI)
    fix i assume i: "i < length (v # vs)"
    show "(?p # ps) ! i =
             \<lparr> point_id = (case doc_id (ds ! (idx + i)) of
                              Some x \<Rightarrow> x
                            | None \<Rightarrow> uuid_gen e (uuid_count w + generated_before (drop idx ds) i)),
               point_vector = (v # vs) ! i,
               payload = make_payload s (ds ! (idx + i)) (custom_payload_at opts (idx + i)) \<rparr>"
    proof (cases i)
      case 0
      then show ?thesis by (simp add: generated_before_0 split: option.splits)
    next
      case (Suc j)
      with i have "j < length vs" by simp
      with nth have "ps ! j =
             \<lparr> point_id = (case doc_id (ds ! (Suc idx + j)) of
                              Some x \<Rightarrow> x
                            | None \<Rightarrow> uuid_gen e (uuid_count ?w1 + generated_before (drop (Suc idx) ds) j)),
               point_vector = vs ! j,
               payload = make_payload s (ds ! (Suc idx + j)) (custom_payload_at opts (Suc idx + j)) \<rparr>"
        by blast
      then show ?thesis
        using Suc idx by (simp add: generated_before_Suc add.assoc split: option.splits)
    qed
  qed
  with run len show ?case by simp
qed

lemma build_points_calls: "calls (snd (build_points e s vs ds opts idx w)) = calls w"
proof (induction vs arbitrary: idx w)
  case Nil
  show ?case by simp
next
  case (Cons v vs)
  show ?case
  proof (cases "idx < length ds")
    case True
    let ?w1 = "w\<lparr>uuid_count := uuid_count w + (if doc_id (ds ! idx) = None then 1 else 0)\<rparr>"
    from Cons.IH [of "Suc idx" ?w1] have "calls (snd (build_points e s vs ds opts (Suc idx) ?w1)) = calls w"
      by simp
    with True show ?thesis
      by (cases "build_points e s vs ds opts (Suc idx) ?w1")
         (auto simp: id_or_uuid_eq split: sum.splits)
  next
    case False
    then show ?thesis by simp
  qed
qed

lemma client_upsert_calls:
  "calls (snd (client_upsert e n wt ps w)) = calls w @ [Upsert n wt ps]"
  by (simp add: client_upsert_def await_def Let_def)

lemma addVectors_calls:
  "\<exists>new. calls (snd (addVectors e s vs ds opts w)) = calls w @ new \<and>
     (\<forall>n wt ps. Upsert n wt ps \<in> set new \<longrightarrow>
        (\<exists>w1 w2. build_points e s vs ds opts 0 w1 = (Inr ps, w2)))"
proof (cases "vs = []")
  case True
  then have "calls (snd (addVectors e s vs ds opts w)) = calls w @ []"
    by (simp add: addVectors_def)
  then show ?thesis by fastforce
next
  case False
  obtain r1 w1 where ens: "ensureCollection e s w = (r1, w1)"
    by (cases "ensureCollection e s w")
  from ensure_calls [of e s w] ens obtain new0 where
    new0: "calls w1 = calls w @ new0"
    and no_upsert: "\<forall>n wt ps. Upsert n wt ps \<notin> set new0"
    by fastforce
  obtain r2 w2 where bp: "build_points e s vs ds opts 0 w1 = (r2, w2)"
    by (cases "build_points e s vs ds opts 0 w1")
  from build_points_calls [of e s vs ds opts 0 w1] bp have w2: "calls w2 = calls w1"
    by simp
  show ?thesis
  proof (cases r1)
    case (Inl err)
    with False ens new0 have "calls (snd (addVectors e s vs ds opts w)) = calls w @ new0"
      by (simp add: addVectors_def)
    with no_upsert show ?thesis by blast
  next
    case r1: (Inr u)
    show ?thesis
    proof (cases r2)
      case (Inl err)
      with False ens r1 bp new0 w2
      have "calls (snd (addVectors e s vs ds opts w)) = calls w @ new0"
        by (simp add: addVectors_def)
      with no_upsert show ?thesis by blast
    next
      case (Inr ps)
      from client_upsert_calls [of e "collectionName s" True ps w2] w2 new0
      have "calls (snd (client_upsert e (collectionName s) True ps w2)) =
          calls w @ (new0 @ [Upsert (collectionName s) True ps])"
        by simp
      with False ens r1 bp Inr
      have "calls (snd (addVectors e s vs ds opts w)) =
          calls w @ (new0 @ [Upsert (collectionName s) True ps])"
        by (cases "client_upsert e (collectionName s) True ps w2")
           (auto simp: addVectors_def split: sum.splits)
      moreover have "\<forall>n wt qs. Upsert n wt qs \<in> set (new0 @ [Upsert (collectionName s) True ps]) \<longrightarrow>
          (\<exists>w1 w2. build_points e s vs ds opts 0 w1 = (Inr qs, w2))"
        using no_upsert bp Inr by auto
      ultimately show ?thesis by blast
    qed
  qed
qed

subsection \<open>The stored payload\<close>

lemma build_points_nth:
  "build_points e s vs ds opts idx w = (Inr ps, w') \<Longrightarrow>
   length ps = length vs \<and>
   (\<forall>i<length vs. idx + i < length ds \<and>
      payload (ps ! i) = make_payload s (ds ! (idx + i)) (custom_payload_at opts (idx + i)))"
proof (induction vs arbitrary: idx w ps)
  case Nil
  then show ?case by simp
next
  case (Cons v vs)
  show ?case
  proof (cases "idx < length ds")
    case True
    let ?w1 = "w\<lparr>uuid_count := uuid_count w + (if doc_id (ds ! idx) = None then 1 else 0)\<rparr>"
    from Cons.prems True obtain q qs where
      run: "build_points e s vs ds opts (Suc idx) ?w1 = (Inr qs, w')"
      and ps: "ps = q # qs"
      and q: "payload q = make_payload s (ds ! idx) (custom_payload_at opts idx)"
      by (cases "build_points e s vs ds opts (Suc idx) ?w1")
         (auto simp: id_or_uuid_eq split: sum.splits)
    from Cons.IH [OF run] have len: "length qs = length vs"
      and nth: "\<forall>i<length vs. Suc idx + i < length ds \<and>
        payload (qs ! i) = make_payload s (ds ! (Suc idx + i)) (custom_payload_at opts (Suc idx + i))"
      by simp_all
    have "\<forall>i<length (v # vs). idx + i < length ds \<and>
      payload (ps ! i) = make_payload s (ds ! (idx + i)) (custom_payload_at opts (idx + i))"
    proof (intro allI impI)
      fix i assume i: "i < length (v # vs)"
      show "idx + i < length ds \<and>
        payload (ps ! i) = make_payload s (ds ! (idx + i)) (custom_payload_at opts (idx + i))"
      proof (cases i)
        case 0
        with True ps q show ?thesis by simp
      next
        case (Suc j)
        with i have "j < length vs" by simp
        with nth have "Suc idx + j < length ds \<and>
          payload (qs ! j) = make_payload s (ds ! (Suc idx + j)) (custom_payload_at opts (Suc idx + j))"
          by blast
        with Suc ps show ?thesis by simp
      qed
    qed
    with len ps show ?thesis by simp
  next
    case False
    with Cons.prems show ?thesis by simp
  qed
qed

lemma stored_make_payload:
  assumes "contentPayloadKey s \<noteq> metadataPayloadKey s"
    and "contentPayloadKey s \<noteq> ''customPayload''"
    and "metadataPayloadKey s \<noteq> ''customPayload''"
    and "metadata d \<noteq> Undefined"
  shows "json_props (make_payload s d c) =
     (contentPayloadKey s, Str (pageContent d)) #
     (metadataPayloadKey s, json (metadata d)) #
     (if c = Undefined then [] else [(''customPayload'', json c)])"
  using assms by (simp add: make_payload_def)

lemma run_fresh_default:
  assumes "collectionConfig s = None"
  shows "ensureCollection e0 s w0 =
     (Inr (), w0\<lparr>calls := [GetCollections, EmbedQuery ''test'',
                   CreateCollection (collectionName s) (default_config [1, 2, 3])],
                 collections := [collectionName s]\<rparr>)"
proof -
  have "collectionName s \<notin> set (collections w0)" by (simp add: w0_def)
  from ensure_absent_default [OF e0_accepts this assms] show ?thesis
    by (simp add: w0_def e0_def)
qed

text \<open>
  Claim C3, as stated: the payload of every stored point has the configured content key
  holding the text of the document and the configured metadata key holding its metadata.
  With \<open>customPayload\<close> configured as the content key, the third property of the object
  literal (lines 102 to 106) takes the place of the text; no extra payload being supplied
  its value is \<open>undefined\<close>, and the stored payload has the metadata key alone.
\<close>

theorem payload_keys_counterexample:
  "last (calls (snd (addVectors e0 s_content_custom [[1, 2]] [doc1] None w0))) =
     Upsert ''documents'' True [pt_lost_content] \<and>
   stored_payload pt_lost_content = [(''metadata'', Obj [(''source'', Str ''a.txt'')])]"
proof -
  have "collectionConfig s_content_custom = None"
    by (simp add: s_content_custom_def s0_def)
  from run_fresh_default [OF this] show ?thesis
    by (simp add: addVectors_def client_upsert_def await_def id_or_uuid_def make_payload_def
        custom_payload_at_def doc1_def e0_def s0_def s_content_custom_def w0_def
        pt_lost_content_def stored_payload_def)
qed

text \<open>
  Claim C3, amended: let the configured content key, the configured metadata key and the
  fixed key \<open>customPayload\<close> be pairwise different. Then for the \<open>i\<close>-th point of an
  upsert that \<open>addVectors\<close> sends, the \<open>i\<close>-th document having metadata: the stored
  payload has the content key holding the text of the \<open>i\<close>-th document and the metadata
  key holding its metadata; it has the key \<open>customPayload\<close>, holding the \<open>i\<close>-th extra
  payload, exactly when extra payload was supplied and has an \<open>i\<close>-th entry; and it has
  no other key, so without extra payload it has exactly the two configured keys.
\<close>

theorem payload_keys:
  assumes issued: "calls (snd (addVectors e s vectors documents documentOptions w)) = calls w @ new"
    and upsert: "Upsert n wt ps \<in> set new"
    and i: "i < length ps"
    and keys: "contentPayloadKey s \<noteq> metadataPayloadKey s"
      "contentPayloadKey s \<noteq> ''customPayload''" "metadataPayloadKey s \<noteq> ''customPayload''"
    and meta: "metadata (documents ! i) \<noteq> Undefined"
  shows "i < length documents \<and>
         distinct (obj_keys (stored_payload (ps ! i))) \<and>
         obj_get (contentPayloadKey s) (stored_payload (ps ! i)) = Str (pageContent (documents ! i)) \<and>
         obj_get (metadataPayloadKey s) (stored_payload (ps ! i)) = json (metadata (documents ! i)) \<and>
         (documentOptions = None \<longrightarrow>
            set (obj_keys (stored_payload (ps ! i))) = {contentPayloadKey s, metadataPayloadKey s}) \<and>
         (\<forall>cps. documentOptions = Some cps \<longrightarrow>
            (if i < length cps \<and> cps ! i \<noteq> Undefined
             then set (obj_keys (stored_payload (ps ! i))) =
                    {contentPayloadKey s, metadataPayloadKey s, ''customPayload''} \<and>
                  obj_get ''customPayload'' (stored_payload (ps ! i)) = json (cps ! i)
             else set (obj_keys (stored_payload (ps ! i))) =
                    {contentPayloadKey s, metadataPayloadKey s}))"
proof -
  from addVectors_calls [of e s vectors documents documentOptions w] obtain new' where
    a: "calls (snd (addVectors e s vectors documents documentOptions w)) = calls w @ new'"
    and b: "\<forall>n wt ps. Upsert n wt ps \<in> set new' \<longrightarrow>
        (\<exists>w1 w2. build_points e s vectors documents documentOptions 0 w1 = (Inr ps, w2))"
    by blast
  from a issued have "new' = new" by simp
  with b upsert
  obtain w1 w2 where "build_points e s vectors documents documentOptions 0 w1 = (Inr ps, w2)"
    by blast
  from build_points_nth [OF this] i
  have doc: "i < length documents"
    and pl: "payload (ps ! i) =
      make_payload s (documents ! i) (custom_payload_at documentOptions i)"
    by auto
  let ?c = "custom_payload_at documentOptions i"
  have stored: "stored_payload (ps ! i) =
     (contentPayloadKey s, Str (pageContent (documents ! i))) #
     (metadataPayloadKey s, json (metadata (documents ! i))) #
     (if ?c = Undefined then [] else [(''customPayload'', json ?c)])"
    unfolding stored_payload_def pl by (rule stored_make_payload [OF keys meta])
  have d: "distinct (obj_keys (stored_payload (ps ! i)))"
    using keys by (simp add: stored obj_keys_def)
  have content: "obj_get (contentPayloadKey s) (stored_payload (ps ! i)) =
      Str (pageContent (documents ! i))"
    by (simp add: stored obj_get_def)
  have metadata: "obj_get (metadataPayloadKey s) (stored_payload (ps ! i)) =
      json (metadata (documents ! i))"
    using keys by (simp add: stored obj_get_def)
  have none: "documentOptions = None \<longrightarrow>
      set (obj_keys (stored_payload (ps ! i))) = {contentPayloadKey s, metadataPayloadKey s}"
    by (simp add: stored obj_keys_def custom_payload_at_def)
  have some: "\<forall>cps. documentOptions = Some cps \<longrightarrow>
            (if i < length cps \<and> cps ! i \<noteq> Undefined
             then set (obj_keys (stored_payload (ps ! i))) =
                    {contentPayloadKey s, metadataPayloadKey s, ''customPayload''} \<and>
                  obj_get ''customPayload'' (stored_payload (ps ! i)) = json (cps ! i)
             else set (obj_keys (stored_payload (ps ! i))) =
                    {contentPayloadKey s, metadataPayloadKey s})"
    using keys by (auto simp: stored obj_keys_def obj_get_def custom_payload_at_def)
  from doc d content metadata none some show ?thesis by blast
qed

lemma addVectors_two_docs:
  "addVectors e0 s0 [[1, 2], [3, 4]] [doc1, doc2] (Some extra0) w0 =
     (Inr (),
      \<lparr> calls = [GetCollections, EmbedQuery ''test'',
                 CreateCollection ''documents'' (default_config [1, 2, 3]),
                 Upsert ''documents'' True [pt1, pt2]],
        collections = [''documents''], uuid_count = 1 \<rparr>)"
proof -
  have "collectionConfig s0 = None" by (simp add: s0_def)
  from run_fresh_default [OF this] show ?thesis
    by (simp add: addVectors_def client_upsert_def await_def id_or_uuid_def uuid_def
        make_payload_def custom_payload_at_def doc1_def doc2_def pt1_def pt2_def extra0_def
        e0_def s0_def w0_def)
qed

theorem payload_keys_witness:
  "set (obj_keys (stored_payload pt1)) = {''content'', ''metadata'', ''customPayload''} \<and>
   obj_get ''customPayload'' (stored_payload pt1) = Obj [(''tag'', Str ''x'')] \<and>
   obj_get ''content'' (stored_payload pt1) = Str ''hello'' \<and>
   set (obj_keys (stored_payload pt2)) = {''content'', ''metadata''} \<and>
   obj_get ''metadata'' (stored_payload pt2) = Obj []"
proof -
  let ?new = "[GetCollections, EmbedQuery ''test'',
      CreateCollection ''documents'' (default_config [1, 2, 3]),
      Upsert ''documents'' True [pt1, pt2]]"
  have a: "calls (snd (addVectors e0 s0 [[1, 2], [3, 4]] [doc1, doc2] (Some extra0) w0)) =
      calls w0 @ ?new"
    unfolding addVectors_two_docs by (simp add: w0_def)
  have b: "Upsert ''documents'' True [pt1, pt2] \<in> set ?new" by simp
  have k: "contentPayloadKey s0 \<noteq> metadataPayloadKey s0"
    "contentPayloadKey s0 \<noteq> ''customPayload''" "metadataPayloadKey s0 \<noteq> ''customPayload''"
    by (simp_all add: s0_def)
  have i0: "0 < length [pt1, pt2]" and i1: "1 < length [pt1, pt2]" by simp_all
  have m0: "metadata ([doc1, doc2] ! 0) \<noteq> Undefined" and m1: "metadata ([doc1, doc2] ! 1) \<noteq> Undefined"
    by (simp_all add: doc1_def doc2_def)
  from payload_keys [OF a b i0 k m0]
  have first: "set (obj_keys (stored_payload pt1)) = {''content'', ''metadata'', ''customPayload''} \<and>
   obj_get ''customPayload'' (stored_payload pt1) = Obj [(''tag'', Str ''x'')] \<and>
   obj_get ''content'' (stored_payload pt1) = Str ''hello''"
    by (simp add: s0_def extra0_def doc1_def)
  from payload_keys [OF a b i1 k m1]
  have "set (obj_keys (stored_payload pt2)) = {''content'', ''metadata''} \<and>
   obj_get ''metadata'' (stored_payload pt2) = Obj []"
    by (simp add: s0_def extra0_def doc2_def)
  with first show ?thesis by blast
qed

subsection \<open>The points of an upsert\<close>

lemma make_payload_keys:
  "set (obj_keys (make_payload s d c)) =
     {contentPayloadKey s, metadataPayloadKey s, ''customPayload''}"
  by (auto simp: make_payload_def obj_keys_def)

lemma make_payload_metadata:
  "metadataPayloadKey s \<noteq> ''customPayload'' \<Longrightarrow>
   obj_get (metadataPayloadKey s) (make_payload s d c) = metadata d"
  by (simp add: make_payload_def obj_get_def)

lemma make_payload_content:
  "contentPayloadKey s \<noteq> metadataPayloadKey s \<Longrightarrow> contentPayloadKey s \<noteq> ''customPayload'' \<Longrightarrow>
   obj_get (contentPayloadKey s) (make_payload s d c) = Str (pageContent d)"
  by (simp add: make_payload_def obj_get_def)

lemma client_upsert_accepted:
  "\<forall>h c. \<not> rejects e h c \<Longrightarrow>
   client_upsert e n wt ps w = (Inr (), w\<lparr>calls := calls w @ [Upsert n wt ps]\<rparr>)"
  by (simp add: client_upsert_def await_accepted)

text \<open>
  Claim C5, as stated: the payload of the \<open>i\<close>-th point carries the configured metadata
  key taken from the \<open>i\<close>-th document. With \<open>customPayload\<close> configured as the metadata
  key, which the invariant of the specification allows, the third property of the object
  literal overwrites the metadata: the point sent holds \<open>undefined\<close> under that key.
\<close>

theorem addVectors_points_counterexample:
  "last (calls (snd (addVectors e0 s_metadata_custom [[1, 2]] [doc1] None w0))) =
     Upsert ''documents'' True [pt_lost_metadata] \<and>
   metadata doc1 = Obj [(''source'', Str ''a.txt'')] \<and>
   obj_keys (payload pt_lost_metadata) = [''content'', ''customPayload''] \<and>
   obj_get (metadataPayloadKey s_metadata_custom) (payload pt_lost_metadata) = Undefined"
proof -
  have "collectionConfig s_metadata_custom = None"
    by (simp add: s_metadata_custom_def s0_def)
  from run_fresh_default [OF this] show ?thesis
    by (simp add: addVectors_def client_upsert_def await_def id_or_uuid_def make_payload_def
        custom_payload_at_def doc1_def e0_def s0_def s_metadata_custom_def w0_def
        pt_lost_metadata_def obj_keys_def obj_get_def)
qed

text \<open>
  Claim C5, amended: when the remote service accepts the calls, adding \<open>N > 0\<close> vectors
  with \<open>N\<close> documents succeeds and issues, after the calls of the collection check,
  exactly one upsert (with \<open>wait\<close> set) of \<open>N\<close> points. The \<open>i\<close>-th point has the
  \<open>i\<close>-th vector; its identifier is that of the \<open>i\<close>-th document when it has one, and
  otherwise the next draw of the generator, one draw per earlier document without
  identifier, so that a later document never gets the draw of an earlier one; its payload
  has the content key and the metadata key; the metadata key holds the metadata of the
  \<open>i\<close>-th document when it is not \<open>customPayload\<close>, and the content key holds its text
  when it differs from the metadata key and from \<open>customPayload\<close>.
\<close>

theorem addVectors_points:
  assumes acc: "\<forall>h c. \<not> rejects e h c"
    and len: "length documents = length vectors"
    and ne: "vectors \<noteq> []"
  shows "\<exists>ps pre.
      fst (addVectors e s vectors documents documentOptions w) = Inr () \<and>
      calls (snd (addVectors e s vectors documents documentOptions w)) =
        calls w @ pre @ [Upsert (collectionName s) True ps] \<and>
      filter is_upsert pre = [] \<and>
      length ps = length vectors \<and>
      (\<forall>i<length vectors.
         point_vector (ps ! i) = vectors ! i \<and>
         point_id (ps ! i) =
           (case doc_id (documents ! i) of
              Some x \<Rightarrow> x
            | None \<Rightarrow> uuid_gen e (uuid_count w + generated_before documents i)) \<and>
         contentPayloadKey s \<in> set (obj_keys (payload (ps ! i))) \<and>
         metadataPayloadKey s \<in> set (obj_keys (payload (ps ! i))) \<and>
         (metadataPayloadKey s \<noteq> ''customPayload'' \<longrightarrow>
            obj_get (metadataPayloadKey s) (payload (ps ! i)) = metadata (documents ! i)) \<and>
         (contentPayloadKey s \<noteq> metadataPayloadKey s \<and> contentPayloadKey s \<noteq> ''customPayload'' \<longrightarrow>
            obj_get (contentPayloadKey s) (payload (ps ! i)) = Str (pageContent (documents ! i)))) \<and>
      (\<forall>i j. i < j \<and> j < length vectors \<and> doc_id (documents ! i) = None \<longrightarrow>
         generated_before documents i < generated_before documents j)"
proof -
  from ensure_accepted [OF acc, of s w] obtain pre cols where
    ens: "ensureCollection e s w = (Inr (), w\<lparr>calls := calls w @ pre, collections := cols\<rparr>)"
    and pre: "filter is_upsert pre = []"
    by blast
  let ?w1 = "w\<lparr>calls := calls w @ pre, collections := cols\<rparr>"
  from len have "0 + length vectors \<le> length documents" by simp
  from build_points_ok [OF this, of e s documentOptions ?w1] obtain ps where
    bp: "build_points e s vectors documents documentOptions 0 ?w1 =
           (Inr ps, ?w1\<lparr>uuid_count := uuid_count ?w1 +
              generated_before (drop 0 documents) (length vectors)\<rparr>)"
    and lps: "length ps = length vectors"
    and nth: "\<forall>i<length vectors.
           ps ! i =
             \<lparr> point_id = (case doc_id (documents ! (0 + i)) of
                              Some x \<Rightarrow> x
                            | None \<Rightarrow> uuid_gen e (uuid_count ?w1 +
                                generated_before (drop 0 documents) i)),
               point_vector = vectors ! i,
               payload = make_payload s (documents ! (0 + i))
                           (custom_payload_at documentOptions (0 + i)) \<rparr>"
    by blast
  let ?w2 = "?w1\<lparr>uuid_count := uuid_count ?w1 +
              generated_before (drop 0 documents) (length vectors)\<rparr>"
  have run: "addVectors e s vectors documents documentOptions w =
      (Inr (), ?w2\<lparr>calls := calls ?w2 @ [Upsert (collectionName s) True ps]\<rparr>)"
    using ne by (simp add: addVectors_def ens bp client_upsert_accepted [OF acc])
  have res: "fst (addVectors e s vectors documents documentOptions w) = Inr ()"
    by (simp add: run)
  have cs: "calls (snd (addVectors e s vectors documents documentOptions w)) =
        calls w @ pre @ [Upsert (collectionName s) True ps]"
    by (simp add: run)
  have pts: "\<forall>i<length vectors.
         point_vector (ps ! i) = vectors ! i \<and>
         point_id (ps ! i) =
           (case doc_id (documents ! i) of
              Some x \<Rightarrow> x
            | None \<Rightarrow> uuid_gen e (uuid_count w + generated_before documents i)) \<and>
         contentPayloadKey s \<in> set (obj_keys (payload (ps ! i))) \<and>
         metadataPayloadKey s \<in> set (obj_keys (payload (ps ! i))) \<and>
         (metadataPayloadKey s \<noteq> ''customPayload'' \<longrightarrow>
            obj_get (metadataPayloadKey s) (payload (ps ! i)) = metadata (documents ! i)) \<and>
         (contentPayloadKey s \<noteq> metadataPayloadKey s \<and> contentPayloadKey s \<noteq> ''customPayload'' \<longrightarrow>
            obj_get (contentPayloadKey s) (payload (ps ! i)) = Str (pageContent (documents ! i)))"
  proof (intro allI impI)
    fix i assume "i < length vectors"
    with nth have "ps ! i =
             \<lparr> point_id = (case doc_id (documents ! i) of
                              Some x \<Rightarrow> x
                            | None \<Rightarrow> uuid_gen e (uuid_count w + generated_before documents i)),
               point_vector = vectors ! i,
               payload = make_payload s (documents ! i) (custom_payload_at documentOptions i) \<rparr>"
      by (simp cong: option.case_cong)
    then show "point_vector (ps ! i) = vectors ! i \<and>
         point_id (ps ! i) =
           (case doc_id (documents ! i) of
              Some x \<Rightarrow> x
            | None \<Rightarrow> uuid_gen e (uuid_count w + generated_before documents i)) \<and>
         contentPayloadKey s \<in> set (obj_keys (payload (ps ! i))) \<and>
         metadataPayloadKey s \<in> set (obj_keys (payload (ps ! i))) \<and>
         (metadataPayloadKey s \<noteq> ''customPayload'' \<longrightarrow>
            obj_get (metadataPayloadKey s) (payload (ps ! i)) = metadata (documents ! i)) \<and>
         (contentPayloadKey s \<noteq> metadataPayloadKey s \<and> contentPayloadKey s \<noteq> ''customPayload'' \<longrightarrow>
            obj_get (contentPayloadKey s) (payload (ps ! i)) = Str (pageContent (documents ! i)))"
      by (simp add: make_payload_keys make_payload_metadata make_payload_content)
  qed
  have fresh: "\<forall>i j. i < j \<and> j < length vectors \<and> doc_id (documents ! i) = None \<longrightarrow>
      generated_before documents i < generated_before documents j"
    using len by (auto intro: generated_before_fresh)
  from res cs pre lps pts fresh show ?thesis by blast
qed

theorem addVectors_points_witness:
  "\<exists>ps. last (calls (snd (addVectors e0 s0 [[1, 2], [3, 4]] [doc1, doc2] None w0))) =
           Upsert ''documents'' True ps \<and>
         length ps = 2 \<and>
         point_vector (ps ! 0) = [1, 2] \<and> point_id (ps ! 0) = ''d1'' \<and>
         obj_get ''content'' (payload (ps ! 0)) = Str ''hello'' \<and>
         point_vector (ps ! 1) = [3, 4] \<and> point_id (ps ! 1) = ''u'' \<and>
         obj_get ''content'' (payload (ps ! 1)) = Str ''world'' \<and>
         obj_get ''metadata'' (payload (ps ! 1)) = Obj []"
proof -
  have l: "length [doc1, doc2] = length [[1, 2], [3, 4 :: real]]" by simp
  have n: "[[1, 2], [3, 4 :: real]] \<noteq> []" by simp
  from addVectors_points [OF e0_accepts l n, of s0 None w0] obtain ps pre where
    cs: "calls (snd (addVectors e0 s0 [[1, 2], [3, 4]] [doc1, doc2] None w0)) =
        calls w0 @ pre @ [Upsert (collectionName s0) True ps]"
    and lps: "length ps = length [[1, 2], [3, 4 :: real]]"
    and pts: "\<forall>i<length [[1, 2], [3, 4 :: real]].
         point_vector (ps ! i) = [[1, 2], [3, 4]] ! i \<and>
         point_id (ps ! i) =
           (case doc_id ([doc1, doc2] ! i) of
              Some x \<Rightarrow> x
            | None \<Rightarrow> uuid_gen e0 (uuid_count w0 + generated_before [doc1, doc2] i)) \<and>
         contentPayloadKey s0 \<in> set (obj_keys (payload (ps ! i))) \<and>
         metadataPayloadKey s0 \<in> set (obj_keys (payload (ps ! i))) \<and>
         (metadataPayloadKey s0 \<noteq> ''customPayload'' \<longrightarrow>
            obj_get (metadataPayloadKey s0) (payload (ps ! i)) = metadata ([doc1, doc2] ! i)) \<and>
         (contentPayloadKey s0 \<noteq> metadataPayloadKey s0 \<and> contentPayloadKey s0 \<noteq> ''customPayload'' \<longrightarrow>
            obj_get (contentPayloadKey s0) (payload (ps ! i)) = Str (pageContent ([doc1, doc2] ! i)))"
    by blast
  from pts have p0: "point_vector (ps ! 0) = [1, 2] \<and> point_id (ps ! 0) = ''d1'' \<and>
         obj_get ''content'' (payload (ps ! 0)) = Str ''hello''"
    by (simp add: s0_def doc1_def)
  from pts have "1 < length [[1, 2], [3, 4 :: real]] \<longrightarrow>
         point_vector (ps ! 1) = [[1, 2], [3, 4]] ! 1 \<and>
         point_id (ps ! 1) =
           (case doc_id ([doc1, doc2] ! 1) of
              Some x \<Rightarrow> x
            | None \<Rightarrow> uuid_gen e0 (uuid_count w0 + generated_before [doc1, doc2] 1)) \<and>
         contentPayloadKey s0 \<in> set (obj_keys (payload (ps ! 1))) \<and>
         metadataPayloadKey s0 \<in> set (obj_keys (payload (ps ! 1))) \<and>
         (metadataPayloadKey s0 \<noteq> ''customPayload'' \<longrightarrow>
            obj_get (metadataPayloadKey s0) (payload (ps ! 1)) = metadata ([doc1, doc2] ! 1)) \<and>
         (contentPayloadKey s0 \<noteq> metadataPayloadKey s0 \<and> contentPayloadKey s0 \<noteq> ''customPayload'' \<longrightarrow>
            obj_get (contentPayloadKey s0) (payload (ps ! 1)) = Str (pageContent ([doc1, doc2] ! 1)))"
    by blast
  then have p1: "point_vector (ps ! 1) = [3, 4] \<and> point_id (ps ! 1) = ''u'' \<and>
         obj_get ''content'' (payload (ps ! 1)) = Str ''world'' \<and>
         obj_get ''metadata'' (payload (ps ! 1)) = Obj []"
    by (simp add: s0_def doc1_def doc2_def e0_def w0_def generated_before_def)
  from cs have "last (calls (snd (addVectors e0 s0 [[1, 2], [3, 4]] [doc1, doc2] None w0))) =
           Upsert ''documents'' True ps"
    by (simp add: s0_def)
  with lps p0 p1 show ?thesis by auto
qed

subsection \<open>Maximal marginal relevance search\<close>

lemma map_throwing_total:
  "\<forall>x\<in>set xs. f x = Inr (g x) \<Longrightarrow> map_throwing f xs = Inr (map g xs)"
  by (induction xs) simp_all

lemma map_throwing_all2:
  "\<forall>x\<in>set xs. \<exists>y. f x = Inr y \<and> P x y \<Longrightarrow>
   \<exists>ys. map_throwing f xs = Inr ys \<and> list_all2 P xs ys"
proof (induction xs)
  case Nil
  then show ?case by simp
next
  case (Cons x xs)
  from Cons.prems obtain y where y: "f x = Inr y" "P x y" by auto
  from Cons.IH Cons.prems obtain ys where ys: "map_throwing f xs = Inr ys" "list_all2 P xs ys"
    by auto
  from y ys have "map_throwing f (x # xs) = Inr (y # ys) \<and> list_all2 P (x # xs) (y # ys)"
    by simp
  then show ?case by blast
qed

lemma hit_document_fields:
  assumes "hit_payload res = Some pl" and "obj_get (contentPayloadKey s) pl \<noteq> Null"
  shows "\<exists>d. hit_document e s res = Inr d \<and>
           doc_id d = Some (hit_id res) \<and>
           (if obj_get (contentPayloadKey s) pl = Undefined then Inr []
            else js_toString e (obj_get (contentPayloadKey s) pl)) = Inr (pageContent d) \<and>
           metadata d =
             (if obj_get (metadataPayloadKey s) pl = Undefined \<or>
                 obj_get (metadataPayloadKey s) pl = Null
              then Obj [] else obj_get (metadataPayloadKey s) pl)"
  using assms
  by (cases "obj_get (contentPayloadKey s) pl")
     (simp_all add: hit_document_def new_Document_def js_toString_def)

lemma embedQuery_accepted:
  "\<forall>h c. \<not> rejects e h c \<Longrightarrow>
   embedQuery e t w = (Inr (embed_query e t), w\<lparr>calls := calls w @ [EmbedQuery t]\<rparr>)"
  by (simp add: embedQuery_def await_accepted)

lemma client_search_accepted:
  "\<forall>h c. \<not> rejects e h c \<Longrightarrow>
   client_search e n r w = (Inr (search_reply e n r), w\<lparr>calls := calls w @ [Search n r]\<rparr>)"
  by (simp add: client_search_def await_accepted)

text \<open>
  Claim C9: for a non-empty query, with the options given and the outside accepting the
  calls, the adapter embeds the query, checks the collection and sends one search: for
  the query embedding, with the limit \<open>fetchK\<close> (20 when it is not given), the filter of
  the options, and the vectors included. It hands the query embedding, the vectors of the
  hits, \<open>lambda\<close> and \<open>k\<close> to the diversity selection. The indices that come back being
  in range and the hits at them having a payload whose content is not \<open>null\<close>, the
  result has one document per index, in the order of the indices, not of the hits: the
  \<open>j\<close>-th is the \<open>Document\<close> built from the hit at the \<open>j\<close>-th index, with the
  identifier of the hit, the text of its content (empty when absent) and its metadata
  (the empty object when absent).
\<close>

theorem mmr_search_order:
  assumes acc: "\<forall>h c. \<not> rejects e h c"
    and query: "query = Some q" "q \<noteq> []"
    and options: "options = Some opts"
    and req: "req = \<lparr> req_vector = embed_query e q,
                      limit = Some (case opt_fetchK opts of None \<Rightarrow> 20 | Some n \<Rightarrow> n),
                      req_filter = opt_filter opts,
                      with_payload = [metadataPayloadKey s, contentPayloadKey s],
                      with_vector = True \<rparr>"
    and results: "results = search_reply e (collectionName s) req"
    and idxs: "idxs = mmr e (embed_query e q) (map hit_vector results) (opt_lambda opts) (opt_k opts)"
    and inrange: "\<forall>i\<in>set idxs. i < length results"
    and payloads: "\<forall>i\<in>set idxs. \<exists>pl. hit_payload (results ! i) = Some pl \<and>
                     obj_get (contentPayloadKey s) pl \<noteq> Null"
  shows "\<exists>docs pre.
           fst (maxMarginalRelevanceSearch e s query options w) = Inr docs \<and>
           length docs = length idxs \<and>
           (\<forall>j<length idxs. \<exists>pl.
              hit_payload (results ! (idxs ! j)) = Some pl \<and>
              doc_id (docs ! j) = Some (hit_id (results ! (idxs ! j))) \<and>
              (if obj_get (contentPayloadKey s) pl = Undefined then Inr []
               else js_toString e (obj_get (contentPayloadKey s) pl)) = Inr (pageContent (docs ! j)) \<and>
              metadata (docs ! j) =
                (if obj_get (metadataPayloadKey s) pl = Undefined \<or>
                    obj_get (metadataPayloadKey s) pl = Null
                 then Obj [] else obj_get (metadataPayloadKey s) pl)) \<and>
           calls (snd (maxMarginalRelevanceSearch e s query options w)) =
             calls w @ EmbedQuery q # pre @ [Search (collectionName s) req] \<and>
           filter is_search pre = []"
proof -
  let ?w1 = "w\<lparr>calls := calls w @ [EmbedQuery q]\<rparr>"
  from ensure_accepted [OF acc, of s ?w1] obtain pre cols where
    ens: "ensureCollection e s ?w1 =
        (Inr (), ?w1\<lparr>calls := calls ?w1 @ pre, collections := cols\<rparr>)"
    and pre: "filter is_search pre = []"
    by blast
  let ?w2 = "?w1\<lparr>calls := calls ?w1 @ pre, collections := cols\<rparr>"
  let ?w3 = "?w2\<lparr>calls := calls ?w2 @ [Search (collectionName s) req]\<rparr>"
  let ?P = "\<lambda>res d. \<exists>pl. hit_payload res = Some pl \<and>
              doc_id d = Some (hit_id res) \<and>
              (if obj_get (contentPayloadKey s) pl = Undefined then Inr []
               else js_toString e (obj_get (contentPayloadKey s) pl)) = Inr (pageContent d) \<and>
              metadata d =
                (if obj_get (metadataPayloadKey s) pl = Undefined \<or>
                    obj_get (metadataPayloadKey s) pl = Null
                 then Obj [] else obj_get (metadataPayloadKey s) pl)"
  have picks: "map_throwing (result_at results) idxs = Inr (map (\<lambda>i. results ! i) idxs)"
    using inrange by (intro map_throwing_total) (simp add: result_at_def)
  have "\<forall>res\<in>set (map (\<lambda>i. results ! i) idxs). \<exists>d. hit_document e s res = Inr d \<and> ?P res d"
  proof
    fix res assume "res \<in> set (map (\<lambda>i. results ! i) idxs)"
    then obtain i where "i \<in> set idxs" and res: "res = results ! i" by auto
    with payloads obtain pl where pl: "hit_payload res = Some pl"
      "obj_get (contentPayloadKey s) pl \<noteq> Null"
      by blast
    from hit_document_fields [OF pl, of e] pl(1)
    show "\<exists>d. hit_document e s res = Inr d \<and> ?P res d"
      by auto
  qed
  from map_throwing_all2 [of "map (\<lambda>i. results ! i) idxs" "hit_document e s" ?P, OF this]
  obtain docs where docs: "map_throwing (hit_document e s) (map (\<lambda>i. results ! i) idxs) = Inr docs"
    and all2: "list_all2 ?P (map (\<lambda>i. results ! i) idxs) docs"
    by blast
  have run: "maxMarginalRelevanceSearch e s query options w = (Inr docs, ?w3)"
    using query options picks docs
    by (simp add: maxMarginalRelevanceSearch_def truthy_str_def nullish_def
        embedQuery_accepted [OF acc] ens client_search_accepted [OF acc]
        req [symmetric] results [symmetric] idxs [symmetric] Let_def)
  from all2 have len: "length docs = length idxs"
    by (auto dest: list_all2_lengthD)
  from all2 have nth: "\<forall>j<length idxs. ?P (results ! (idxs ! j)) (docs ! j)"
    by (auto simp: list_all2_conv_all_nth)
  have cs: "calls (snd (maxMarginalRelevanceSearch e s query options w)) =
      calls w @ EmbedQuery q # pre @ [Search (collectionName s) req]"
    by (simp add: run)
  have res: "fst (maxMarginalRelevanceSearch e s query options w) = Inr docs"
    by (simp add: run)
  from res len nth cs pre show ?thesis by blast
qed

theorem mmr_search_order_witness:
  "\<exists>docs. fst (maxMarginalRelevanceSearch e1 s0 (Some ''cats'') (Some opts0) w0) = Inr docs \<and>
      length docs = 2 \<and>
      doc_id (docs ! 0) = Some ''a'' \<and> pageContent (docs ! 0) = ''alpha'' \<and>
      metadata (docs ! 0) = Obj [(''page'', Number 1)] \<and>
      doc_id (docs ! 1) = Some ''c'' \<and> pageContent (docs ! 1) = ''gamma'' \<and>
      metadata (docs ! 1) = Obj [] \<and>
      last (calls (snd (maxMarginalRelevanceSearch e1 s0 (Some ''cats'') (Some opts0) w0))) =
        Search ''documents''
          \<lparr> req_vector = [1, 0, 0], limit = Some 20, req_filter = None,
            with_payload = [''metadata'', ''content''], with_vector = True \<rparr>"
proof -
  let ?req = "\<lparr> req_vector = embed_query e1 ''cats'',
           limit = Some (case opt_fetchK opts0 of None \<Rightarrow> 20 | Some n \<Rightarrow> n),
           req_filter = opt_filter opts0,
           with_payload = [metadataPayloadKey s0, contentPayloadKey s0],
           with_vector = True \<rparr>"
  let ?results = "search_reply e1 (collectionName s0) ?req"
  let ?idxs = "mmr e1 (embed_query e1 ''cats'') (map hit_vector ?results)
      (opt_lambda opts0) (opt_k opts0)"
  have acc: "\<forall>h c. \<not> rejects e1 h c"
    by (simp add: e1_def e0_def)
  have q: "''cats'' \<noteq> []" by simp
  have reply: "search_reply e1 = (\<lambda>n r. [hitA, hitB, hitC])" "mmr e1 = (\<lambda>q vs l k. [0, 2])"
    "embed_query e1 = (\<lambda>t. [1, 0, 0])"
    by (simp_all add: e1_def e0_def)
  have inrange: "\<forall>i\<in>set ?idxs. i < length ?results"
    by (simp add: reply)
  have payloads: "\<forall>i\<in>set ?idxs. \<exists>pl. hit_payload (?results ! i) = Some pl \<and>
      obj_get (contentPayloadKey s0) pl \<noteq> Null"
    by (simp add: reply hitA_def hitC_def s0_def obj_get_def)
  from mmr_search_order [OF acc refl q refl refl refl refl inrange payloads, of w0]
  obtain docs pre where
    res: "fst (maxMarginalRelevanceSearch e1 s0 (Some ''cats'') (Some opts0) w0) = Inr docs"
    and len: "length docs = length ?idxs"
    and nth: "\<forall>j<length ?idxs. \<exists>pl.
              hit_payload (?results ! (?idxs ! j)) = Some pl \<and>
              doc_id (docs ! j) = Some (hit_id (?results ! (?idxs ! j))) \<and>
              (if obj_get (contentPayloadKey s0) pl = Undefined then Inr []
               else js_toString e1 (obj_get (contentPayloadKey s0) pl)) = Inr (pageContent (docs ! j)) \<and>
              metadata (docs ! j) =
                (if obj_get (metadataPayloadKey s0) pl = Undefined \<or>
                    obj_get (metadataPayloadKey s0) pl = Null
                 then Obj [] else obj_get (metadataPayloadKey s0) pl)"
    and cs: "calls (snd (maxMarginalRelevanceSearch e1 s0 (Some ''cats'') (Some opts0) w0)) =
             calls w0 @ EmbedQuery ''cats'' # pre @ [Search (collectionName s0) ?req]"
    by blast
  from len have l2: "length docs = 2" by (simp add: reply)
  from nth have "0 < length ?idxs \<longrightarrow> (\<exists>pl.
              hit_payload (?results ! (?idxs ! 0)) = Some pl \<and>
              doc_id (docs ! 0) = Some (hit_id (?results ! (?idxs ! 0))) \<and>
              (if obj_get (contentPayloadKey s0) pl = Undefined then Inr []
               else js_toString e1 (obj_get (contentPayloadKey s0) pl)) = Inr (pageContent (docs ! 0)) \<and>
              metadata (docs ! 0) =
                (if obj_get (metadataPayloadKey s0) pl = Undefined \<or>
                    obj_get (metadataPayloadKey s0) pl = Null
                 then Obj [] else obj_get (metadataPayloadKey s0) pl))"
    by (rule spec)
  then have d0: "doc_id (docs ! 0) = Some ''a'' \<and> pageContent (docs ! 0) = ''alpha'' \<and>
      metadata (docs ! 0) = Obj [(''page'', Number 1)]"
    by (auto simp: reply hitA_def s0_def obj_get_def js_toString_def)
  from nth have "1 < length ?idxs \<longrightarrow> (\<exists>pl.
              hit_payload (?results ! (?idxs ! 1)) = Some pl \<and>
              doc_id (docs ! 1) = Some (hit_id (?results ! (?idxs ! 1))) \<and>
              (if obj_get (contentPayloadKey s0) pl = Undefined then Inr []
               else js_toString e1 (obj_get (contentPayloadKey s0) pl)) = Inr (pageContent (docs ! 1)) \<and>
              metadata (docs ! 1) =
                (if obj_get (metadataPayloadKey s0) pl = Undefined \<or>
                    obj_get (metadataPayloadKey s0) pl = Null
                 then Obj [] else obj_get (metadataPayloadKey s0) pl))"
    by (rule spec)
  then have d1: "doc_id (docs ! 1) = Some ''c'' \<and> pageContent (docs ! 1) = ''gamma'' \<and>
      metadata (docs ! 1) = Obj []"
    by (auto simp: reply hitC_def s0_def obj_get_def js_toString_def)
  from cs have "last (calls (snd (maxMarginalRelevanceSearch e1 s0 (Some ''cats'') (Some opts0) w0))) =
        Search ''documents''
          \<lparr> req_vector = [1, 0, 0], limit = Some 20, req_filter = None,
            with_payload = [''metadata'', ''content''], with_vector = True \<rparr>"
    by (simp add: reply s0_def opts0_def)
  with res l2 d0 d1 show ?thesis by (intro exI [of _ docs]) simp
qed

end
